theory Spec2Isabelle
  imports Complex_Main "HOL-Library.Finite_Map" "HOL-Library.Char_ord" "HOL-Library.List_Lexorder"
    "HOL-Library.Multiset"
begin

section \<open>Values and messages\<close>

text \<open>
  Messages are Python dicts from field names to dynamically typed values. The values are
  the JSON-like ones the pipeline carries. Python's \<^verbatim>\<open>bool\<close>, \<^verbatim>\<open>int\<close> and finite
  \<^verbatim>\<open>float\<close> are merged into \<open>PNum\<close> (Python's \<^verbatim>\<open>==\<close> and truthiness do not tell
  \<^verbatim>\<open>True\<close>, \<^verbatim>\<open>1\<close> and \<^verbatim>\<open>1.0\<close> apart, and no operation modelled below does); NaN and
  the infinities are not represented. Nested dicts are finite maps, so that equality of values
  is Python's \<^verbatim>\<open>==\<close>. Strings are compared as Python compares them, lexicographically by
  code point.
\<close>

datatype pyval =
    PNone
  | PNum real
  | PStr string
  | PList "pyval list"
  | PDict "(string, pyval) fmap"

type_synonym msg = "string \<rightharpoonup> pyval"

text \<open>Python truthiness (\<^verbatim>\<open>if x:\<close>, \<^verbatim>\<open>not x\<close>).\<close>

fun truthy :: "pyval \<Rightarrow> bool" where
  "truthy PNone = False"
| "truthy (PNum x) = (x \<noteq> 0)"
| "truthy (PStr s) = (s \<noteq> [])"
| "truthy (PList xs) = (xs \<noteq> [])"
| "truthy (PDict d) = (d \<noteq> fmempty)"

text \<open>The exceptions the modelled code raises.\<close>

datatype exn = ValueError | TypeError | KeyError | AttributeError | OverflowError

section \<open>The in-memory broker (\<^verbatim>\<open>mocks/rabbitmq.py\<close>)\<close>

text \<open>
  \<^verbatim>\<open>_work_queues\<close> maps a queue name to the pending messages of its \<^verbatim>\<open>asyncio.Queue\<close>
  (head first). \<^verbatim>\<open>_fanout\<close> maps a topic to the list of subscriber queues; these queues are
  objects shared between the broker and the subscriber that holds the handle, so they live in
  a store \<open>inboxes\<close> addressed by reference, and \<open>next_inbox\<close> is the next fresh reference.
\<close>

record broker =
  work_queues :: "string \<rightharpoonup> msg list"
  fanout :: "string \<rightharpoonup> nat list"
  inboxes :: "nat \<Rightarrow> msg list"
  next_inbox :: nat

definition InMemoryBroker :: broker where
  "InMemoryBroker = \<lparr>work_queues = Map.empty, fanout = Map.empty, inboxes = (\<lambda>_. []), next_inbox = 0\<rparr>"

definition AUDIO_STREAM :: string where "AUDIO_STREAM = ''audio_stream''"
definition FEATURES_A :: string where "FEATURES_A = ''features_a''"
definition FEATURES_B :: string where "FEATURES_B = ''features_b''"

text \<open>\<^verbatim>\<open>if queue_name not in self._work_queues: self._work_queues[queue_name] = asyncio.Queue()\<close>\<close>

definition ensure_queue :: "broker \<Rightarrow> string \<Rightarrow> broker" where
  "ensure_queue b q =
     (case work_queues b q of
        None \<Rightarrow> b\<lparr>work_queues := (work_queues b)(q \<mapsto> [])\<rparr>
      | Some _ \<Rightarrow> b)"

definition queue_items :: "broker \<Rightarrow> string \<Rightarrow> msg list" where
  "queue_items b q = (case work_queues b q of None \<Rightarrow> [] | Some ms \<Rightarrow> ms)"

definition publish_work :: "broker \<Rightarrow> string \<Rightarrow> msg \<Rightarrow> broker" where
  "publish_work b q m =
     (let b1 = ensure_queue b q
      in b1\<lparr>work_queues := (work_queues b1)(q \<mapsto> queue_items b1 q @ [m])\<rparr>)"

text \<open>
  \<^verbatim>\<open>consume_work\<close> returns \<open>None\<close> for Python's \<^verbatim>\<open>None\<close>. With a positive timeout the
  source waits on \<^verbatim>\<open>get()\<close>; in this sequential model nothing is published during the
  wait, so an empty queue times out and the caught \<^verbatim>\<open>TimeoutError\<close> gives \<^verbatim>\<open>None\<close>.
\<close>

definition consume_work :: "broker \<Rightarrow> string \<Rightarrow> real \<Rightarrow> msg option \<times> broker" where
  "consume_work b q timeout =
     (let b1 = ensure_queue b q
      in if timeout > 0 then
           (case queue_items b1 q of
              [] \<Rightarrow> (None, b1)
            | m # ms \<Rightarrow> (Some m, b1\<lparr>work_queues := (work_queues b1)(q \<mapsto> ms)\<rparr>))
         else
           (case queue_items b1 q of
              [] \<Rightarrow> (None, b1)
            | m # ms \<Rightarrow> (Some m, b1\<lparr>work_queues := (work_queues b1)(q \<mapsto> ms)\<rparr>)))"

definition work_queue_depth :: "broker \<Rightarrow> string \<Rightarrow> nat" where
  "work_queue_depth b q =
     (case work_queues b q of None \<Rightarrow> 0 | Some ms \<Rightarrow> length ms)"

text \<open>\<^verbatim>\<open>self._fanout.get(topic, [])\<close>\<close>

definition subscribers :: "broker \<Rightarrow> string \<Rightarrow> nat list" where
  "subscribers b t = (case fanout b t of None \<Rightarrow> [] | Some rs \<Rightarrow> rs)"

definition subscribe_fanout :: "broker \<Rightarrow> string \<Rightarrow> nat \<times> broker" where
  "subscribe_fanout b t =
     (let r = next_inbox b
      in (r, b\<lparr>fanout := (fanout b)(t \<mapsto> subscribers b t @ [r]),
                inboxes := (inboxes b)(r := []),
                next_inbox := Suc r\<rparr>))"

text \<open>\<^verbatim>\<open>q.put_nowait(message)\<close> on the subscriber queue \<open>r\<close>.\<close>

definition put_nowait :: "msg \<Rightarrow> nat \<Rightarrow> (nat \<Rightarrow> msg list) \<Rightarrow> (nat \<Rightarrow> msg list)" where
  "put_nowait m r ib = ib(r := ib r @ [m])"

definition publish_fanout :: "broker \<Rightarrow> string \<Rightarrow> msg \<Rightarrow> broker" where
  "publish_fanout b t m = b\<lparr>inboxes := fold (put_nowait m) (subscribers b t) (inboxes b)\<rparr>"

definition fanout_subscriber_count :: "broker \<Rightarrow> string \<Rightarrow> nat" where
  "fanout_subscriber_count b t = length (subscribers b t)"

definition purge_all :: "broker \<Rightarrow> broker" where
  "purge_all b = b\<lparr>work_queues := Map.empty, fanout := Map.empty\<rparr>"

text \<open>\<^verbatim>\<open>inbox.get_nowait()\<close> on a subscriber queue; \<open>None\<close> stands for \<^verbatim>\<open>QueueEmpty\<close>.\<close>

definition get_nowait :: "broker \<Rightarrow> nat \<Rightarrow> msg option \<times> broker" where
  "get_nowait b r =
     (case inboxes b r of
        [] \<Rightarrow> (None, b)
      | m # ms \<Rightarrow> (Some m, b\<lparr>inboxes := (inboxes b)(r := ms)\<rparr>))"

text \<open>A run of \<open>k\<close> successive \<^verbatim>\<open>consume_work(q)\<close> calls, whoever the callers are.\<close>

fun consume_many :: "nat \<Rightarrow> string \<Rightarrow> broker \<Rightarrow> msg option list \<times> broker" where
  "consume_many 0 q b = ([], b)"
| "consume_many (Suc k) q b =
     (case consume_work b q 0 of
        (x, b1) \<Rightarrow> (case consume_many k q b1 of (xs, b2) \<Rightarrow> (x # xs, b2)))"

text \<open>A run of \<^verbatim>\<open>publish_work(q, m)\<close> calls, one for each message of \<open>ms\<close> in order.\<close>

definition publish_many :: "broker \<Rightarrow> string \<Rightarrow> msg list \<Rightarrow> broker" where
  "publish_many b q ms = fold (\<lambda>m b. publish_work b q m) ms b"

text \<open>
  A history of calls on the broker: every method that changes it, taken in any order
  (\<^verbatim>\<open>work_queue_depth\<close> and \<^verbatim>\<open>fanout_subscriber_count\<close> change nothing). Reading from a
  subscriber queue is not a broker call: the inboxes below hold what has been delivered.
\<close>

datatype fan_op =
    Subscribe string
  | Publish string msg
  | Purge
  | PublishWork string msg
  | ConsumeWork string real

fun fan_step :: "fan_op \<Rightarrow> broker \<Rightarrow> broker" where
  "fan_step (Subscribe t) b = snd (subscribe_fanout b t)"
| "fan_step (Publish t m) b = publish_fanout b t m"
| "fan_step Purge b = purge_all b"
| "fan_step (PublishWork q m) b = publish_work b q m"
| "fan_step (ConsumeWork q timeout) b = snd (consume_work b q timeout)"

text \<open>The messages a history publishes to topic \<open>t\<close> before its first purge, in order.\<close>

fun published_before_purge :: "string \<Rightarrow> fan_op list \<Rightarrow> msg list" where
  "published_before_purge t [] = []"
| "published_before_purge t (Subscribe u # ops) = published_before_purge t ops"
| "published_before_purge t (Publish u m # ops) =
     (if u = t then m # published_before_purge t ops else published_before_purge t ops)"
| "published_before_purge t (Purge # ops) = []"
| "published_before_purge t (PublishWork q m # ops) = published_before_purge t ops"
| "published_before_purge t (ConsumeWork q timeout # ops) = published_before_purge t ops"

text \<open>Every registered subscriber queue has been allocated.\<close>

definition refs_allocated :: "broker \<Rightarrow> bool" where
  "refs_allocated b = (\<forall>t. \<forall>r \<in> set (subscribers b t). r < next_inbox b)"

text \<open>The queue \<open>r\<close> is registered once, on topic \<open>t\<close> and on no other.\<close>

definition sole_subscription :: "broker \<Rightarrow> string \<Rightarrow> nat \<Rightarrow> bool" where
  "sole_subscription b t r =
     (r < next_inbox b \<and> (\<forall>u. count_list (subscribers b u) r = (if u = t then 1 else 0)))"

text \<open>The queue \<open>r\<close> has been allocated and is registered on no topic.\<close>

definition unsubscribed :: "broker \<Rightarrow> nat \<Rightarrow> bool" where
  "unsubscribed b r = (r < next_inbox b \<and> (\<forall>u. count_list (subscribers b u) r = 0))"

section \<open>The in-memory writer (\<^verbatim>\<open>mocks/data_writer.py\<close>)\<close>

text \<open>
  The store \<^verbatim>\<open>self.db\<close> is a list of dicts in insertion order. The duplicate test
  \<^verbatim>\<open>any(r["message_id"] == message["message_id"] for r in self.db)\<close> subscripts both dicts
  for each stored record in turn, so it raises \<^verbatim>\<open>KeyError\<close> at the first stored record
  when either side lacks the key, and it looks at nothing when the store is empty.
\<close>

fun any_duplicate :: "msg list \<Rightarrow> msg \<Rightarrow> exn + bool" where
  "any_duplicate [] m = Inr False"
| "any_duplicate (r # rs) m =
     (case r ''message_id'' of
        None \<Rightarrow> Inl KeyError
      | Some a \<Rightarrow>
          (case m ''message_id'' of
             None \<Rightarrow> Inl KeyError
           | Some b \<Rightarrow> if a = b then Inr True else any_duplicate rs m))"

text \<open>
  \<^verbatim>\<open>_write\<close> returns the result (or the exception) and the store afterwards. After the
  append, the arguments of \<^verbatim>\<open>logger.debug\<close> subscript \<^verbatim>\<open>message["message_id"]\<close> again.
\<close>

definition DataWriter_write :: "msg list \<Rightarrow> msg \<Rightarrow> (exn + bool) \<times> msg list" where
  "DataWriter_write db m =
     (case any_duplicate db m of
        Inl e \<Rightarrow> (Inl e, db)
      | Inr True \<Rightarrow> (Inr False, db)
      | Inr False \<Rightarrow>
          (case m ''message_id'' of
             None \<Rightarrow> (Inl KeyError, db @ [m])
           | Some _ \<Rightarrow> (Inr True, db @ [m])))"

text \<open>A run of \<^verbatim>\<open>_write\<close> calls, with the result of each.\<close>

fun write_many :: "msg list \<Rightarrow> msg list \<Rightarrow> (exn + bool) list \<times> msg list" where
  "write_many db [] = ([], db)"
| "write_many db (m # ms) =
     (case DataWriter_write db m of
        (x, db1) \<Rightarrow> (case write_many db1 ms of (xs, db2) \<Rightarrow> (x # xs, db2)))"

text \<open>\<^verbatim>\<open>if feature_type:\<close> on an \<^verbatim>\<open>Optional[str]\<close> argument.\<close>

fun supplied :: "string option \<Rightarrow> bool" where
  "supplied None = False"
| "supplied (Some s) = (s \<noteq> [])"

text \<open>
  \<^verbatim>\<open>r.get("timestamp", "")\<close> compared with a string bound: a value that is not a string
  raises \<^verbatim>\<open>TypeError\<close>.
\<close>

definition timestamp_of :: "msg \<Rightarrow> exn + string" where
  "timestamp_of r =
     (case r ''timestamp'' of
        None \<Rightarrow> Inr []
      | Some (PStr s) \<Rightarrow> Inr s
      | Some _ \<Rightarrow> Inl TypeError)"

text \<open>A list comprehension whose condition may raise.\<close>

fun filter_exn :: "(msg \<Rightarrow> exn + bool) \<Rightarrow> msg list \<Rightarrow> exn + msg list" where
  "filter_exn p [] = Inr []"
| "filter_exn p (r # rs) =
     (case p r of
        Inl e \<Rightarrow> Inl e
      | Inr keep \<Rightarrow>
          (case filter_exn p rs of
             Inl e \<Rightarrow> Inl e
           | Inr ys \<Rightarrow> Inr (if keep then r # ys else ys)))"

definition ge_start :: "string \<Rightarrow> msg \<Rightarrow> exn + bool" where
  "ge_start start r = (case timestamp_of r of Inl e \<Rightarrow> Inl e | Inr t \<Rightarrow> Inr (start \<le> t))"

definition le_end :: "string \<Rightarrow> msg \<Rightarrow> exn + bool" where
  "le_end end_ts r = (case timestamp_of r of Inl e \<Rightarrow> Inl e | Inr t \<Rightarrow> Inr (t \<le> end_ts))"

definition DataWriter_query ::
  "msg list \<Rightarrow> string option \<Rightarrow> string option \<Rightarrow> string option \<Rightarrow> string option \<Rightarrow> exn + msg list" where
  "DataWriter_query db feature_type sensor_id start end_ts =
     (let results = db;
          results = (if supplied feature_type
                     then filter (\<lambda>r. r ''feature_type'' = Some (PStr (the feature_type))) results
                     else results);
          results = (if supplied sensor_id
                     then filter (\<lambda>r. r ''sensor_id'' = Some (PStr (the sensor_id))) results
                     else results)
      in case (if supplied start then filter_exn (ge_start (the start)) results else Inr results) of
           Inl e \<Rightarrow> Inl e
         | Inr results \<Rightarrow>
             (if supplied end_ts then filter_exn (le_end (the end_ts)) results else Inr results))"

text \<open>The conjunction of the filters that are in effect, on a record that can be compared.\<close>

definition matches ::
  "string option \<Rightarrow> string option \<Rightarrow> string option \<Rightarrow> string option \<Rightarrow> msg \<Rightarrow> bool" where
  "matches feature_type sensor_id start end_ts r =
     ((supplied feature_type \<longrightarrow> r ''feature_type'' = Some (PStr (the feature_type))) \<and>
      (supplied sensor_id \<longrightarrow> r ''sensor_id'' = Some (PStr (the sensor_id))) \<and>
      (supplied start \<longrightarrow> (\<exists>t. timestamp_of r = Inr t \<and> the start \<le> t)) \<and>
      (supplied end_ts \<longrightarrow> (\<exists>t. timestamp_of r = Inr t \<and> t \<le> the end_ts)))"

text \<open>Every stored timestamp is a string (a record may lack the field).\<close>

definition timestamps_are_strings :: "msg list \<Rightarrow> bool" where
  "timestamps_are_strings db = (\<forall>r \<in> set db. \<exists>t. timestamp_of r = Inr t)"

text \<open>The store invariant: every record has a \<^verbatim>\<open>message_id\<close> and no two share one.\<close>

definition unique_ids :: "msg list \<Rightarrow> bool" where
  "unique_ids db = ((\<forall>r \<in> set db. r ''message_id'' \<noteq> None) \<and> distinct (map (\<lambda>r. r ''message_id'') db))"

section \<open>The stage processors (\<^verbatim>\<open>mocks/algorithm_a.py\<close>, \<^verbatim>\<open>mocks/algorithm_b.py\<close>)\<close>

text \<open>
  What the stages take from outside the repository is a parameter of the model:
  \<^item> \<open>py_uuid4 n\<close> and \<open>py_utcnow n\<close> are the results of the \<open>n\<close>-th draw of
    \<^verbatim>\<open>str(uuid.uuid4())\<close> and \<^verbatim>\<open>datetime.now(timezone.utc).isoformat()\<close>;
  \<^item> \<open>py_fromisoformat s\<close> tells whether \<^verbatim>\<open>datetime.fromisoformat(s)\<close> accepts \<open>s\<close>;
  \<^item> \<open>py_b64decode s\<close> is the bytes of \<^verbatim>\<open>base64.b64decode(s)\<close>, \<open>None\<close> when it raises
    \<^verbatim>\<open>binascii.Error\<close> (a \<^verbatim>\<open>ValueError\<close>);
  \<^item> \<open>fl_round\<close> rounds a real to the nearest double, which is what one floating-point
    operation or literal does; \<open>fl_sin\<close> and \<open>fl_tanh\<close> are \<^verbatim>\<open>math.sin\<close> and
    \<^verbatim>\<open>math.tanh\<close>, \<open>fl_sum\<close> is \<^verbatim>\<open>sum\<close> on a list of numbers and \<open>py_round x n\<close> is
    \<^verbatim>\<open>round(x, n)\<close>;
  \<^item> \<open>derive_math mfcc centroid energy\<close> is the outcome of the arithmetic of
    \<^verbatim>\<open>_derive_features\<close> on operands outside the range modelled below (values that are not
    numbers, or numbers large enough to overflow): the payload it builds, or the exception
    it raises.
\<close>

record env =
  py_uuid4 :: "nat \<Rightarrow> string"
  py_utcnow :: "nat \<Rightarrow> string"
  py_fromisoformat :: "string \<Rightarrow> bool"
  py_b64decode :: "string \<Rightarrow> nat list option"
  fl_round :: "real \<Rightarrow> real"
  fl_sin :: "real \<Rightarrow> real"
  fl_tanh :: "real \<Rightarrow> real"
  fl_sum :: "real list \<Rightarrow> real"
  py_round :: "real \<Rightarrow> nat \<Rightarrow> real"
  derive_math :: "pyval \<Rightarrow> pyval \<Rightarrow> pyval \<Rightarrow> exn + pyval"

text \<open>
  The shared state a stage runs in: the broker, the writer's store, and the number of
  draws made so far from the random and clock sources.
\<close>

record world =
  bro :: broker
  store :: "msg list"
  draws :: nat

text \<open>\<^verbatim>\<open>_REQUIRED_FIELDS - set(message.keys())\<close>\<close>

definition missing_fields :: "string list \<Rightarrow> msg \<Rightarrow> string list" where
  "missing_fields required m = filter (\<lambda>k. m k = None) required"

definition REQUIRED_FIELDS_A :: "string list" where
  "REQUIRED_FIELDS_A = [''message_id'', ''sensor_id'', ''timestamp'', ''audio_data'']"

definition REQUIRED_FIELDS_B :: "string list" where
  "REQUIRED_FIELDS_B = [''message_id'', ''sensor_id'', ''timestamp'', ''feature_type'', ''features'']"

text \<open>\<^verbatim>\<open>s.replace("Z", "+00:00")\<close>\<close>

definition replace_Z :: "string \<Rightarrow> string" where
  "replace_Z s = concat (map (\<lambda>c. if c = CHR ''Z'' then ''+00:00'' else [c]) s)"

text \<open>
  \<^verbatim>\<open>message["timestamp"].replace(...)\<close> raises \<^verbatim>\<open>AttributeError\<close> on a value that is
  not a string; the handler turns it and the parser's \<^verbatim>\<open>ValueError\<close> into \<^verbatim>\<open>ValueError\<close>.
\<close>

definition timestamp_parses :: "env \<Rightarrow> pyval \<Rightarrow> bool" where
  "timestamp_parses E v = (case v of PStr s \<Rightarrow> py_fromisoformat E (replace_Z s) | _ \<Rightarrow> False)"

text \<open>\<^verbatim>\<open>_validate\<close> of Algorithm A: \<open>None\<close> when it returns, \<open>Some e\<close> when it raises \<open>e\<close>.\<close>

definition AlgorithmA_validate :: "env \<Rightarrow> msg \<Rightarrow> exn option" where
  "AlgorithmA_validate E m =
     (if missing_fields REQUIRED_FIELDS_A m \<noteq> [] then Some ValueError
      else
        (case (m ''audio_data'', m ''timestamp'') of
           (Some audio, Some ts) \<Rightarrow>
             if \<not> truthy audio then Some ValueError
             else if \<not> timestamp_parses E ts then Some ValueError
             else None
         | _ \<Rightarrow> Some KeyError))"

text \<open>The payload of \<^verbatim>\<open>_extract_features\<close> for a seed.\<close>

definition features_of_seed :: "env \<Rightarrow> nat \<Rightarrow> pyval" where
  "features_of_seed E seed =
     PDict (fmap_of_list
       [(''mfcc'', PList (map (\<lambda>i. PNum (py_round E (fl_round E (fl_sin E (real (seed + i)) * 10)) 4)) [0..<13])),
        (''spectral_centroid'', PNum (py_round E (fl_round E (440 + real seed)) 2)),
        (''zero_crossing_rate'',
           PNum (py_round E (fl_round E (fl_round E (5 / 100) + fl_round E (real (seed mod 50) / 1000))) 4)),
        (''rms_energy'',
           PNum (py_round E (fl_round E (fl_round E (1 / 10) + fl_round E (real (seed mod 100) / 1000))) 4))])"

text \<open>
  \<^verbatim>\<open>_extract_features\<close>: \<^verbatim>\<open>audio_data + "=="\<close> raises \<^verbatim>\<open>TypeError\<close> unless
  \<^verbatim>\<open>audio_data\<close> is a string.
\<close>

definition extract_features :: "env \<Rightarrow> pyval \<Rightarrow> exn + pyval" where
  "extract_features E audio_data =
     (case audio_data of
        PStr s \<Rightarrow>
          (case py_b64decode E (s @ ''=='') of
             None \<Rightarrow> Inl ValueError
           | Some raw \<Rightarrow> Inr (features_of_seed E (sum_list raw mod 1000)))
      | _ \<Rightarrow> Inl TypeError)"

text \<open>
  \<^verbatim>\<open>AlgorithmA.process\<close>. The dict display is evaluated entry by entry: the identifier and
  the clock are drawn before \<^verbatim>\<open>_extract_features\<close> runs.
\<close>

definition AlgorithmA_process :: "env \<Rightarrow> msg \<Rightarrow> world \<Rightarrow> (exn + msg) \<times> world" where
  "AlgorithmA_process E m w =
     (case AlgorithmA_validate E m of
        Some e \<Rightarrow> (Inl e, w)
      | None \<Rightarrow>
          (let w1 = w\<lparr>draws := Suc (draws w)\<rparr>
           in case (m ''message_id'', m ''sensor_id'', m ''timestamp'', m ''audio_data'') of
                (Some mid, Some sid, Some ts, Some audio) \<Rightarrow>
                  (case extract_features E audio of
                     Inl e \<Rightarrow> (Inl e, w1)
                   | Inr f \<Rightarrow>
                       (Inr [''message_id'' \<mapsto> PStr (py_uuid4 E (draws w)),
                             ''source_message_id'' \<mapsto> mid,
                             ''feature_type'' \<mapsto> PStr ''A'',
                             ''sensor_id'' \<mapsto> sid,
                             ''timestamp'' \<mapsto> ts,
                             ''processed_at'' \<mapsto> PStr (py_utcnow E (draws w)),
                             ''features'' \<mapsto> f], w1))
              | _ \<Rightarrow> (Inl KeyError, w1)))"

record algorithm_a =
  a_processed_count :: nat

definition AlgorithmA_process_one ::
  "env \<Rightarrow> algorithm_a \<Rightarrow> world \<Rightarrow> (exn + msg option) \<times> algorithm_a \<times> world" where
  "AlgorithmA_process_one E self w =
     (case consume_work (bro w) AUDIO_STREAM 0 of
        (None, b1) \<Rightarrow> (Inr None, self, w\<lparr>bro := b1\<rparr>)
      | (Some message, b1) \<Rightarrow>
          (case AlgorithmA_process E message (w\<lparr>bro := b1\<rparr>) of
             (Inl e, w2) \<Rightarrow> (Inl e, self, w2)
           | (Inr feature_a, w2) \<Rightarrow>
               (Inr (Some feature_a),
                self\<lparr>a_processed_count := a_processed_count self + 1\<rparr>,
                w2\<lparr>bro := publish_fanout (bro w2) FEATURES_A feature_a\<rparr>)))"

text \<open>
  \<^verbatim>\<open>AlgorithmA.process_all\<close>: the loop runs while \<^verbatim>\<open>process_one\<close> returns a record; an
  exception raised in \<^verbatim>\<open>process_one\<close> is not caught and leaves the loop. Each turn takes one
  message off the audio queue, and publishing never adds to a work queue.
\<close>

function AlgorithmA_process_all_loop ::
  "env \<Rightarrow> algorithm_a \<Rightarrow> world \<Rightarrow> nat \<Rightarrow> (exn + nat) \<times> algorithm_a \<times> world" where
  "AlgorithmA_process_all_loop E self w cnt =
     (case AlgorithmA_process_one E self w of
        (Inl e, self1, w1) \<Rightarrow> (Inl e, self1, w1)
      | (Inr None, self1, w1) \<Rightarrow> (Inr cnt, self1, w1)
      | (Inr (Some feature_a), self1, w1) \<Rightarrow> AlgorithmA_process_all_loop E self1 w1 (cnt + 1))"
  by pat_completeness auto
termination
proof (relation "measure (\<lambda>(E, self, w, cnt). length (queue_items (bro w) AUDIO_STREAM))")
  show "wf (measure (\<lambda>(E, self, w, cnt). length (queue_items (bro w) AUDIO_STREAM)))"
    by simp
next
  fix E :: env and self :: algorithm_a and w :: world and cnt :: nat
    and x :: "exn + msg option" and y :: "algorithm_a \<times> world" and o1 :: "msg option"
    and self1 :: algorithm_a and w1 :: world and feature_a :: msg
  assume "(x, y) = AlgorithmA_process_one E self w" and "x = Inr o1" and "(self1, w1) = y"
    and "o1 = Some feature_a"
  then have run: "AlgorithmA_process_one E self w = (Inr (Some feature_a), self1, w1)"
    by simp
  have "length (queue_items (bro w1) AUDIO_STREAM) < length (queue_items (bro w) AUDIO_STREAM)"
    using run
    by (auto simp: AlgorithmA_process_one_def AlgorithmA_process_def consume_work_def Let_def
          publish_fanout_def queue_items_def ensure_queue_def
        split: prod.splits option.splits sum.splits list.splits if_splits)
  then show "((E, self1, w1, cnt + 1), E, self, w, cnt)
      \<in> measure (\<lambda>(E, self, w, cnt). length (queue_items (bro w) AUDIO_STREAM))"
    by simp
qed

definition AlgorithmA_process_all ::
  "env \<Rightarrow> algorithm_a \<Rightarrow> world \<Rightarrow> (exn + nat) \<times> algorithm_a \<times> world" where
  "AlgorithmA_process_all E self w = AlgorithmA_process_all_loop E self w 0"

text \<open>\<^verbatim>\<open>_validate\<close> of Algorithm B.\<close>

definition AlgorithmB_validate :: "msg \<Rightarrow> exn option" where
  "AlgorithmB_validate m =
     (if missing_fields REQUIRED_FIELDS_B m \<noteq> [] then Some ValueError
      else if m ''feature_type'' \<noteq> Some (PStr ''A'') then Some TypeError
      else None)"

text \<open>\<^verbatim>\<open>d.get(key, default)\<close> on a dict value.\<close>

definition dict_get :: "(string, pyval) fmap \<Rightarrow> string \<Rightarrow> pyval \<Rightarrow> pyval" where
  "dict_get d k dflt = (case fmlookup d k of None \<Rightarrow> dflt | Some v \<Rightarrow> v)"

definition CLASSIFICATIONS :: "string list" where
  "CLASSIFICATIONS = [''speech'', ''music'', ''noise'', ''silence'', ''mixed'']"

text \<open>
  The arithmetic of \<^verbatim>\<open>_derive_features\<close> is modelled on operands that are numbers of
  magnitude at most \<open>2\<^sup>2\<^sup>0\<close>, in lists of at most \<open>2\<^sup>2\<^sup>0\<close> elements. There no conversion
  and no operation overflows, so Python raises nothing, and every intermediate value is the
  same whether a whole number comes as an \<^verbatim>\<open>int\<close> or as a \<^verbatim>\<open>float\<close>.
\<close>

fun number_in_range :: "pyval \<Rightarrow> bool" where
  "number_in_range (PNum x) = (\<bar>x\<bar> \<le> 2 ^ 20)"
| "number_in_range _ = False"

fun number_of :: "pyval \<Rightarrow> real" where
  "number_of (PNum x) = x"
| "number_of _ = 0"

text \<open>
  \<^verbatim>\<open>mfcc_mean = sum(mfcc) / len(mfcc) if mfcc else 0\<close>; \<open>None\<close> when \<^verbatim>\<open>mfcc\<close> is truthy
  and not a list of numbers in the modelled range.
\<close>

definition mfcc_mean :: "env \<Rightarrow> pyval \<Rightarrow> real option" where
  "mfcc_mean E mfcc =
     (if \<not> truthy mfcc then Some 0
      else case mfcc of
        PList vs \<Rightarrow>
          if length vs \<le> 2 ^ 20 \<and> list_all number_in_range vs
          then Some (fl_round E (fl_sum E (map number_of vs) / real (length vs)))
          else None
      | _ \<Rightarrow> None)"

text \<open>The dict \<^verbatim>\<open>_derive_features\<close> returns, for the mean and the two other operands.\<close>

definition derived_payload :: "env \<Rightarrow> real \<Rightarrow> real \<Rightarrow> real \<Rightarrow> pyval" where
  "derived_payload E mean centroid energy =
     (let class_index = nat \<lfloor>\<bar>fl_round E (mean * centroid)\<bar>\<rfloor> mod length CLASSIFICATIONS
      in PDict (fmap_of_list
           [(''classification'', PStr (CLASSIFICATIONS ! class_index)),
            (''confidence'',
               PNum (py_round E (min (fl_round E (99 / 100))
                                     (fl_round E (\<bar>fl_tanh E mean\<bar> + energy))) 4)),
            (''derived_metrics'',
               PDict (fmap_of_list
                 [(''mfcc_mean'', PNum (py_round E mean 4)),
                  (''spectral_spread'', PNum (py_round E (fl_round E (centroid * fl_round E (1 / 10))) 2)),
                  (''activity_score'', PNum (py_round E (fl_round E (energy * 10)) 4))]))]))"

definition derive_arithmetic :: "env \<Rightarrow> pyval \<Rightarrow> pyval \<Rightarrow> pyval \<Rightarrow> exn + pyval" where
  "derive_arithmetic E mfcc centroid energy =
     (if number_in_range centroid \<and> number_in_range energy \<and> mfcc_mean E mfcc \<noteq> None
      then Inr (derived_payload E (the (mfcc_mean E mfcc)) (number_of centroid) (number_of energy))
      else derive_math E mfcc centroid energy)"

text \<open>
  \<^verbatim>\<open>_derive_features\<close>: \<^verbatim>\<open>feature_a["features"].get\<close> raises \<^verbatim>\<open>AttributeError\<close> unless
  the value is a dict; the three operands are read with their defaults and handed to the
  arithmetic.
\<close>

definition derive_features :: "env \<Rightarrow> msg \<Rightarrow> exn + pyval" where
  "derive_features E feature_a =
     (case feature_a ''features'' of
        None \<Rightarrow> Inl KeyError
      | Some (PDict d) \<Rightarrow>
          derive_arithmetic E (dict_get d ''mfcc'' (PList [PNum 0]))
                              (dict_get d ''spectral_centroid'' (PNum 440))
                              (dict_get d ''rms_energy'' (PNum (fl_round E (1 / 10))))
      | Some _ \<Rightarrow> Inl AttributeError)"

text \<open>
  What the proofs below need of the floating-point functions: a sine is at most 1 in
  magnitude, and rounding a number of magnitude at most \<open>2\<^sup>1\<^sup>2\<close>, to the nearest double or
  to some decimal places, moves it by at most 1.
\<close>

definition float_bounds :: "env \<Rightarrow> bool" where
  "float_bounds E =
     ((\<forall>x. \<bar>fl_sin E x\<bar> \<le> 1) \<and>
      (\<forall>x. \<bar>x\<bar> \<le> 2 ^ 12 \<longrightarrow> \<bar>fl_round E x\<bar> \<le> \<bar>x\<bar> + 1) \<and>
      (\<forall>x n. \<bar>x\<bar> \<le> 2 ^ 12 \<longrightarrow> \<bar>py_round E x n\<bar> \<le> \<bar>x\<bar> + 1))"

definition AlgorithmB_process :: "env \<Rightarrow> msg \<Rightarrow> world \<Rightarrow> (exn + msg) \<times> world" where
  "AlgorithmB_process E m w =
     (case AlgorithmB_validate m of
        Some e \<Rightarrow> (Inl e, w)
      | None \<Rightarrow>
          (let w1 = w\<lparr>draws := Suc (draws w)\<rparr>
           in case (m ''message_id'', m ''sensor_id'', m ''timestamp'') of
                (Some mid, Some sid, Some ts) \<Rightarrow>
                  (case derive_features E m of
                     Inl e \<Rightarrow> (Inl e, w1)
                   | Inr f \<Rightarrow>
                       (Inr [''message_id'' \<mapsto> PStr (py_uuid4 E (draws w)),
                             ''source_message_id'' \<mapsto> mid,
                             ''feature_type'' \<mapsto> PStr ''B'',
                             ''sensor_id'' \<mapsto> sid,
                             ''timestamp'' \<mapsto> ts,
                             ''processed_at'' \<mapsto> PStr (py_utcnow E (draws w)),
                             ''features'' \<mapsto> f], w1))
              | _ \<Rightarrow> (Inl KeyError, w1)))"

record algorithm_b =
  b_inbox :: nat
  b_processed_count :: nat

text \<open>The constructors: Algorithm B subscribes to \<^verbatim>\<open>features_a\<close> when it is built.\<close>

definition AlgorithmA_init :: algorithm_a where
  "AlgorithmA_init = \<lparr>a_processed_count = 0\<rparr>"

definition AlgorithmB_init :: "world \<Rightarrow> algorithm_b \<times> world" where
  "AlgorithmB_init w =
     (case subscribe_fanout (bro w) FEATURES_A of
        (r, b1) \<Rightarrow> (\<lparr>b_inbox = r, b_processed_count = 0\<rparr>, w\<lparr>bro := b1\<rparr>))"

definition AlgorithmB_process_one ::
  "env \<Rightarrow> algorithm_b \<Rightarrow> world \<Rightarrow> (exn + msg option) \<times> algorithm_b \<times> world" where
  "AlgorithmB_process_one E self w =
     (case get_nowait (bro w) (b_inbox self) of
        (None, b1) \<Rightarrow> (Inr None, self, w)
      | (Some message, b1) \<Rightarrow>
          (case AlgorithmB_process E message (w\<lparr>bro := b1\<rparr>) of
             (Inl e, w2) \<Rightarrow> (Inl e, self, w2)
           | (Inr feature_b, w2) \<Rightarrow>
               (Inr (Some feature_b),
                self\<lparr>b_processed_count := b_processed_count self + 1\<rparr>,
                w2\<lparr>bro := publish_fanout (bro w2) FEATURES_B feature_b\<rparr>)))"

text \<open>
  \<^verbatim>\<open>AlgorithmB.process_all\<close>. The loop ends when the inbox is empty or an exception leaves
  it; the result is \<open>None\<close> when it does neither.
\<close>

partial_function (option) AlgorithmB_process_all_loop ::
  "env \<Rightarrow> algorithm_b \<Rightarrow> world \<Rightarrow> nat \<Rightarrow> ((exn + nat) \<times> algorithm_b \<times> world) option" where
  "AlgorithmB_process_all_loop E self w cnt =
     (case AlgorithmB_process_one E self w of
        (Inl e, self1, w1) \<Rightarrow> Some (Inl e, self1, w1)
      | (Inr None, self1, w1) \<Rightarrow> Some (Inr cnt, self1, w1)
      | (Inr (Some feature_b), self1, w1) \<Rightarrow> AlgorithmB_process_all_loop E self1 w1 (cnt + 1))"

definition AlgorithmB_process_all ::
  "env \<Rightarrow> algorithm_b \<Rightarrow> world \<Rightarrow> ((exn + nat) \<times> algorithm_b \<times> world) option" where
  "AlgorithmB_process_all E self w = AlgorithmB_process_all_loop E self w 0"

text \<open>The records the two stages build, for the \<open>n\<close>-th draw and a feature payload \<open>f\<close>.\<close>

definition feature_a_record :: "env \<Rightarrow> msg \<Rightarrow> nat \<Rightarrow> pyval \<Rightarrow> msg" where
  "feature_a_record E m n f =
     [''message_id'' \<mapsto> PStr (py_uuid4 E n),
      ''source_message_id'' \<mapsto> the (m ''message_id''),
      ''feature_type'' \<mapsto> PStr ''A'',
      ''sensor_id'' \<mapsto> the (m ''sensor_id''),
      ''timestamp'' \<mapsto> the (m ''timestamp''),
      ''processed_at'' \<mapsto> PStr (py_utcnow E n),
      ''features'' \<mapsto> f]"

definition feature_b_record :: "env \<Rightarrow> msg \<Rightarrow> nat \<Rightarrow> pyval \<Rightarrow> msg" where
  "feature_b_record E m n f =
     [''message_id'' \<mapsto> PStr (py_uuid4 E n),
      ''source_message_id'' \<mapsto> the (m ''message_id''),
      ''feature_type'' \<mapsto> PStr ''B'',
      ''sensor_id'' \<mapsto> the (m ''sensor_id''),
      ''timestamp'' \<mapsto> the (m ''timestamp''),
      ''processed_at'' \<mapsto> PStr (py_utcnow E n),
      ''features'' \<mapsto> f]"

text \<open>
  The exception \<^verbatim>\<open>process\<close> raises on a message, if any. It does not depend on the state
  the stage runs in (shown below), so it is read off a run in the initial one.
\<close>

definition AlgorithmA_error :: "env \<Rightarrow> msg \<Rightarrow> exn option" where
  "AlgorithmA_error E m =
     (case fst (AlgorithmA_process E m \<lparr>bro = InMemoryBroker, store = [], draws = 0\<rparr>) of
        Inl e \<Rightarrow> Some e
      | Inr _ \<Rightarrow> None)"

definition AlgorithmB_error :: "env \<Rightarrow> msg \<Rightarrow> exn option" where
  "AlgorithmB_error E m =
     (case fst (AlgorithmB_process E m \<lparr>bro = InMemoryBroker, store = [], draws = 0\<rparr>) of
        Inl e \<Rightarrow> Some e
      | Inr _ \<Rightarrow> None)"

section \<open>Example data\<close>

text \<open>
  The messages of \<^verbatim>\<open>tests/helpers.py\<close> and \<^verbatim>\<open>tests/chaos/test_resilience.py\<close>, and an
  environment to run the model on them. The environment answers as Python does on the strings
  these messages carry (the timestamp parses, \<^verbatim>\<open>"not-a-date"\<close> does not, the audio payload
  decodes to the bytes of \<^verbatim>\<open>b"testaudiodata"\<close>). Its floating-point functions are the
  exact ones, without rounding: the examples below use of them only that they are within
  \<open>float_bounds\<close>, so that the arithmetic returns.
\<close>

definition example_env :: env where
  "example_env =
     \<lparr>py_uuid4 = (\<lambda>n. ''uuid-'' @ replicate n CHR ''i''),
      py_utcnow = (\<lambda>n. ''2024-01-15T10:00:01+00:00''),
      py_fromisoformat = (\<lambda>s. s = ''2024-01-15T10:00:00+00:00''),
      py_b64decode = (\<lambda>s. if s = ''dGVzdGF1ZGlvZGF0YQ====''
                           then Some [116, 101, 115, 116, 97, 117, 100, 105, 111, 100, 97, 116, 97]
                           else None),
      fl_round = (\<lambda>x. x),
      fl_sin = sin,
      fl_tanh = tanh,
      fl_sum = sum_list,
      py_round = (\<lambda>x n. x),
      derive_math = (\<lambda>mfcc centroid energy. Inl TypeError)\<rparr>"

definition audio_1 :: msg where
  "audio_1 = [''message_id'' \<mapsto> PStr ''audio-1'', ''sensor_id'' \<mapsto> PStr ''sensor-01'',
              ''timestamp'' \<mapsto> PStr ''2024-01-15T10:00:00+00:00'',
              ''audio_data'' \<mapsto> PStr ''dGVzdGF1ZGlvZGF0YQ=='']"

definition audio_2 :: msg where
  "audio_2 = [''message_id'' \<mapsto> PStr ''audio-2'', ''sensor_id'' \<mapsto> PStr ''sensor-01'',
              ''timestamp'' \<mapsto> PStr ''2024-01-15T10:00:00+00:00'',
              ''audio_data'' \<mapsto> PStr ''dGVzdGF1ZGlvZGF0YQ=='']"

definition bad_audio :: msg where
  "bad_audio = [''message_id'' \<mapsto> PStr ''bad-id'', ''sensor_id'' \<mapsto> PStr ''sensor-1'']"

definition feature_a_1 :: msg where
  "feature_a_1 = [''message_id'' \<mapsto> PStr ''fa-1'', ''source_message_id'' \<mapsto> PStr ''audio-1'',
                  ''feature_type'' \<mapsto> PStr ''A'', ''sensor_id'' \<mapsto> PStr ''sensor-01'',
                  ''timestamp'' \<mapsto> PStr ''2024-01-15T12:00:00+00:00'',
                  ''processed_at'' \<mapsto> PStr ''2024-01-15T12:00:01+00:00'',
                  ''features'' \<mapsto> PDict fmempty]"

definition feature_a_2 :: msg where
  "feature_a_2 = [''message_id'' \<mapsto> PStr ''fa-2'', ''source_message_id'' \<mapsto> PStr ''audio-2'',
                  ''feature_type'' \<mapsto> PStr ''A'', ''sensor_id'' \<mapsto> PStr ''sensor-02'',
                  ''timestamp'' \<mapsto> PStr ''2024-01-15T08:00:00+00:00'',
                  ''processed_at'' \<mapsto> PStr ''2024-01-15T08:00:01+00:00'',
                  ''features'' \<mapsto> PDict fmempty]"

text \<open>A Feature-A record that is well formed but for its timestamp.\<close>

definition feature_a_bad_timestamp :: msg where
  "feature_a_bad_timestamp =
     [''message_id'' \<mapsto> PStr ''fa-3'', ''source_message_id'' \<mapsto> PStr ''audio-3'',
      ''feature_type'' \<mapsto> PStr ''A'', ''sensor_id'' \<mapsto> PStr ''sensor-01'',
      ''timestamp'' \<mapsto> PStr ''not-a-date'',
      ''processed_at'' \<mapsto> PStr ''2024-01-15T12:00:01+00:00'',
      ''features'' \<mapsto> PDict fmempty]"

text \<open>A record without timestamp, sensor or type.\<close>

definition bare_record :: msg where
  "bare_record = [''message_id'' \<mapsto> PStr ''bare-1'']"

definition world_0 :: world where
  "world_0 = \<lparr>bro = InMemoryBroker, store = [], draws = 0\<rparr>"

text \<open>
  The scenarios of the resilience tests: one malformed audio message among valid ones on
  the audio queue, and a record of the wrong type among Feature-A records in Stage B's inbox.
\<close>

definition world_bad_first :: world where
  "world_bad_first =
     world_0\<lparr>bro := publish_many InMemoryBroker AUDIO_STREAM [bad_audio, audio_1, audio_2]\<rparr>"

definition world_bad_second :: world where
  "world_bad_second =
     world_0\<lparr>bro := publish_many InMemoryBroker AUDIO_STREAM [audio_1, bad_audio, audio_2]\<rparr>"

definition wrong_type_record :: msg where
  "wrong_type_record = feature_a_1(''feature_type'' \<mapsto> PStr ''B'')"

definition stage_b :: algorithm_b where
  "stage_b = fst (AlgorithmB_init world_0)"

definition world_b :: world where
  "world_b =
     (snd (AlgorithmB_init world_0))
       \<lparr>bro := fold fan_step
                 [Publish FEATURES_A feature_a_1, Publish FEATURES_A wrong_type_record,
                  Publish FEATURES_A feature_a_2]
                 (bro (snd (AlgorithmB_init world_0)))\<rparr>"

section \<open>Properties of the broker\<close>

subsection \<open>Work queues\<close>

lemma queue_items_ensure_queue: "queue_items (ensure_queue b q) q' = queue_items b q'"
  by (auto simp: queue_items_def ensure_queue_def split: option.splits)

lemma queue_items_publish_work:
  "queue_items (publish_work b q m) q' =
     (if q' = q then queue_items b q @ [m] else queue_items b q')"
  by (auto simp: publish_work_def Let_def queue_items_ensure_queue)
     (auto simp: queue_items_def ensure_queue_def split: option.splits)

lemma queue_items_publish_many:
  "queue_items (publish_many b q ms) q = queue_items b q @ ms"
  unfolding publish_many_def
  by (induction ms arbitrary: b) (simp_all add: queue_items_publish_work)

lemma work_queue_depth_items: "work_queue_depth b q = length (queue_items b q)"
  by (simp add: work_queue_depth_def queue_items_def split: option.splits)

lemma consume_work_result:
  "fst (consume_work b q t) = (case queue_items b q of [] \<Rightarrow> None | m # ms \<Rightarrow> Some m)"
  by (simp add: consume_work_def Let_def queue_items_ensure_queue split: list.splits)

lemma consume_work_items:
  "queue_items (snd (consume_work b q t)) q' =
     (if q' = q then tl (queue_items b q) else queue_items b q')"
  by (auto simp: consume_work_def Let_def queue_items_ensure_queue split: list.splits)
     (auto simp: queue_items_def ensure_queue_def split: option.splits)

lemma consume_many_results:
  "fst (consume_many k q b) =
     map Some (take k (queue_items b q)) @ replicate (k - length (queue_items b q)) None"
proof (induction k arbitrary: b)
  case 0
  show ?case by simp
next
  case (Suc k)
  obtain x b1 where c: "consume_work b q 0 = (x, b1)"
    by (cases "consume_work b q 0")
  have x: "x = (case queue_items b q of [] \<Rightarrow> None | m # ms \<Rightarrow> Some m)"
    using consume_work_result[of b q 0] c by simp
  have i: "queue_items b1 q = tl (queue_items b q)"
    using consume_work_items[of b q 0 q] c by simp
  show ?case
    using Suc[of b1] c x i
    by (cases "queue_items b q") (auto simp: split_beta replicate_app_Cons_same)
qed

lemma consume_many_items:
  "queue_items (snd (consume_many k q b)) q = drop k (queue_items b q)"
proof (induction k arbitrary: b)
  case 0
  show ?case by simp
next
  case (Suc k)
  obtain x b1 where c: "consume_work b q 0 = (x, b1)"
    by (cases "consume_work b q 0")
  have i: "queue_items b1 q = tl (queue_items b q)"
    using consume_work_items[of b q 0 q] c by simp
  show ?case
    using Suc[of b1] c i by (simp add: split_beta drop_Suc)
qed

text \<open>
  C4. On a queue that holds nothing, publish the messages \<open>ms\<close> and then call
  \<^verbatim>\<open>consume_work\<close> \<open>k\<close> times, from whichever consumers: the calls return the messages of
  \<open>ms\<close> in publication order, each once, every call taking the head of what is left; the
  calls after the last message return \<^verbatim>\<open>None\<close>; the depth afterwards is what was not
  consumed; and on the drained queue \<^verbatim>\<open>consume_work\<close> with timeout 0 returns \<^verbatim>\<open>None\<close>
  and leaves the queue empty.
\<close>

theorem work_queue_fifo_exactly_once:
  assumes "work_queue_depth b q = 0"
  shows "fst (consume_many k q (publish_many b q ms)) =
           map Some (take k ms) @ replicate (k - length ms) None \<and>
         work_queue_depth (snd (consume_many k q (publish_many b q ms))) q = length ms - k \<and>
         (length ms \<le> k \<longrightarrow>
            fst (consume_work (snd (consume_many k q (publish_many b q ms))) q 0) = None \<and>
            work_queue_depth
              (snd (consume_work (snd (consume_many k q (publish_many b q ms))) q 0)) q = 0)"
proof -
  have "queue_items b q = []"
    using assms by (simp add: work_queue_depth_items)
  then have i1: "queue_items (publish_many b q ms) q = ms"
    by (simp add: queue_items_publish_many)
  show ?thesis
    by (simp add: consume_many_results consume_many_items i1 work_queue_depth_items
        consume_work_result consume_work_items)
qed

theorem work_queue_fifo_exactly_once_witness:
  "work_queue_depth InMemoryBroker AUDIO_STREAM = 0 \<and>
   fst (consume_many 3 AUDIO_STREAM (publish_many InMemoryBroker AUDIO_STREAM [audio_1, audio_2]))
     = [Some audio_1, Some audio_2, None] \<and>
   work_queue_depth
     (snd (consume_many 3 AUDIO_STREAM (publish_many InMemoryBroker AUDIO_STREAM [audio_1, audio_2])))
     AUDIO_STREAM = 0"
proof -
  have h: "work_queue_depth InMemoryBroker AUDIO_STREAM = 0"
    by (simp add: work_queue_depth_def InMemoryBroker_def)
  show ?thesis
    using h work_queue_fifo_exactly_once[OF h, of 3 "[audio_1, audio_2]"]
    by (simp add: numeral_3_eq_3)
qed

subsection \<open>Fan-out topics\<close>

lemma fold_put_nowait:
  "fold (put_nowait m) rs ib r = ib r @ replicate (count_list rs r) m"
  by (induction rs arbitrary: ib) (auto simp: put_nowait_def replicate_append_same)

lemma inboxes_publish_fanout:
  "inboxes (publish_fanout b t m) r =
     inboxes b r @ replicate (count_list (subscribers b t) r) m"
  by (simp add: publish_fanout_def fold_put_nowait)

lemma subscribers_publish_fanout [simp]:
  "subscribers (publish_fanout b t m) u = subscribers b u"
  by (simp add: publish_fanout_def subscribers_def)

lemma next_inbox_publish_fanout [simp]:
  "next_inbox (publish_fanout b t m) = next_inbox b"
  by (simp add: publish_fanout_def)

lemma subscribers_subscribe_fanout:
  "subscribers (snd (subscribe_fanout b t)) u =
     (if u = t then subscribers b t @ [next_inbox b] else subscribers b u)"
  by (simp add: subscribe_fanout_def Let_def subscribers_def)

lemma next_inbox_subscribe_fanout [simp]:
  "next_inbox (snd (subscribe_fanout b t)) = Suc (next_inbox b)"
  by (simp add: subscribe_fanout_def Let_def)

lemma inboxes_subscribe_fanout:
  "inboxes (snd (subscribe_fanout b t)) r = (if r = next_inbox b then [] else inboxes b r)"
  by (simp add: subscribe_fanout_def Let_def)

lemma subscribers_purge_all [simp]: "subscribers (purge_all b) u = []"
  by (simp add: purge_all_def subscribers_def)

lemma next_inbox_purge_all [simp]: "next_inbox (purge_all b) = next_inbox b"
  by (simp add: purge_all_def)

lemma inboxes_purge_all [simp]: "inboxes (purge_all b) = inboxes b"
  by (simp add: purge_all_def)

lemma fanout_ensure_queue [simp]:
  "subscribers (ensure_queue b q) u = subscribers b u"
  "next_inbox (ensure_queue b q) = next_inbox b"
  "inboxes (ensure_queue b q) = inboxes b"
  by (simp_all add: ensure_queue_def subscribers_def split: option.splits)

lemma fanout_publish_work [simp]:
  "subscribers (publish_work b q m) u = subscribers b u"
  "next_inbox (publish_work b q m) = next_inbox b"
  "inboxes (publish_work b q m) = inboxes b"
proof -
  have "subscribers (publish_work b q m) u = subscribers (ensure_queue b q) u"
    by (simp add: publish_work_def Let_def subscribers_def)
  then show "subscribers (publish_work b q m) u = subscribers b u"
    by simp
  show "next_inbox (publish_work b q m) = next_inbox b" "inboxes (publish_work b q m) = inboxes b"
    by (simp_all add: publish_work_def Let_def)
qed

lemma fanout_consume_work [simp]:
  "subscribers (snd (consume_work b q timeout)) u = subscribers b u"
  "next_inbox (snd (consume_work b q timeout)) = next_inbox b"
  "inboxes (snd (consume_work b q timeout)) = inboxes b"
proof -
  have "subscribers (snd (consume_work b q timeout)) u = subscribers (ensure_queue b q) u"
    by (simp add: consume_work_def Let_def subscribers_def split: list.splits)
  then show "subscribers (snd (consume_work b q timeout)) u = subscribers b u"
    by simp
  show "next_inbox (snd (consume_work b q timeout)) = next_inbox b"
    "inboxes (snd (consume_work b q timeout)) = inboxes b"
    by (simp_all add: consume_work_def Let_def split: list.splits)
qed

lemma refs_allocated_step: "refs_allocated b \<Longrightarrow> refs_allocated (fan_step x b)"
  by (cases x) (auto simp: refs_allocated_def subscribers_subscribe_fanout less_Suc_eq)

lemma refs_allocated_fold: "refs_allocated b \<Longrightarrow> refs_allocated (fold fan_step ops b)"
  by (induction ops arbitrary: b) (simp_all add: refs_allocated_step)

lemma refs_allocated_init: "refs_allocated InMemoryBroker"
  by (simp add: refs_allocated_def InMemoryBroker_def subscribers_def)

lemma unsubscribed_step: "unsubscribed b r \<Longrightarrow> unsubscribed (fan_step x b) r"
  by (cases x) (auto simp: unsubscribed_def subscribers_subscribe_fanout)

lemma unsubscribed_inboxes_step: "unsubscribed b r \<Longrightarrow> inboxes (fan_step x b) r = inboxes b r"
  by (cases x) (auto simp: unsubscribed_def inboxes_subscribe_fanout inboxes_publish_fanout)

lemma unsubscribed_inboxes_fold:
  "unsubscribed b r \<Longrightarrow> inboxes (fold fan_step ops b) r = inboxes b r"
proof (induction ops arbitrary: b)
  case Nil
  show ?case by simp
next
  case (Cons x ops)
  show ?case
    using Cons.IH[OF unsubscribed_step[OF Cons.prems], of x] unsubscribed_inboxes_step[OF Cons.prems, of x]
    by simp
qed

lemma inboxes_fold:
  "sole_subscription b t r \<Longrightarrow>
   inboxes (fold fan_step ops b) r = inboxes b r @ published_before_purge t ops"
proof (induction ops arbitrary: b)
  case Nil
  show ?case by simp
next
  case (Cons x ops)
  show ?case
  proof (cases x)
    case (Subscribe u)
    have s: "sole_subscription (fan_step x b) t r"
      using Cons.prems Subscribe by (auto simp: sole_subscription_def subscribers_subscribe_fanout)
    have i: "inboxes (fan_step x b) r = inboxes b r"
      using Cons.prems Subscribe by (auto simp: sole_subscription_def inboxes_subscribe_fanout)
    show ?thesis
      using Cons.IH[OF s] i Subscribe by simp
  next
    case (Publish u m)
    have s: "sole_subscription (fan_step x b) t r"
      using Cons.prems Publish by (simp add: sole_subscription_def)
    have i: "inboxes (fan_step x b) r = inboxes b r @ (if u = t then [m] else [])"
      using Cons.prems Publish by (simp add: sole_subscription_def inboxes_publish_fanout)
    show ?thesis
      using Cons.IH[OF s] i Publish by simp
  next
    case Purge
    have u: "unsubscribed (purge_all b) r"
      using Cons.prems by (simp add: unsubscribed_def sole_subscription_def)
    show ?thesis
      using unsubscribed_inboxes_fold[OF u, of ops] Purge by simp
  next
    case (PublishWork q m)
    have s: "sole_subscription (fan_step x b) t r"
      using Cons.prems PublishWork by (simp add: sole_subscription_def)
    show ?thesis
      using Cons.IH[OF s] PublishWork by simp
  next
    case (ConsumeWork q timeout)
    have s: "sole_subscription (fan_step x b) t r"
      using Cons.prems ConsumeWork by (simp add: sole_subscription_def)
    show ?thesis
      using Cons.IH[OF s] ConsumeWork by simp
  qed
qed

lemma sole_subscription_fresh:
  assumes "refs_allocated b"
  shows "sole_subscription (snd (subscribe_fanout b t)) t (next_inbox b)"
proof -
  have "\<And>u. next_inbox b \<notin> set (subscribers b u)"
    using assms by (auto simp: refs_allocated_def)
  then have "\<And>u. count_list (subscribers b u) (next_inbox b) = 0"
    by (simp add: count_list_0_iff)
  then show ?thesis
    by (simp add: sole_subscription_def subscribers_subscribe_fanout)
qed

text \<open>
  C3, as claimed, fails once \<^verbatim>\<open>purge_all\<close> is called between the subscription and the
  publish: \<^verbatim>\<open>purge_all\<close> drops the subscription, and the subscriber, whose
  \<^verbatim>\<open>subscribe_fanout\<close> completed before the publish, receives no copy.
\<close>

theorem subscriber_misses_publish_after_purge:
  "fst (subscribe_fanout InMemoryBroker FEATURES_A) = 0 \<and>
   inboxes (publish_fanout (purge_all (snd (subscribe_fanout InMemoryBroker FEATURES_A)))
              FEATURES_A feature_a_1) 0 = []"
  by (simp add: subscribe_fanout_def purge_all_def publish_fanout_def subscribers_def
      InMemoryBroker_def Let_def)

text \<open>
  C3, amended. Take any history \<open>before\<close> of calls on a new broker (subscriptions,
  fan-out publishes, work-queue calls, purges), then a \<^verbatim>\<open>subscribe_fanout(t)\<close> that returns
  the inbox \<open>r\<close>, then any history \<open>after\<close>. The inbox \<open>r\<close> then holds the messages published
  to \<open>t\<close> in \<open>after\<close> before the first \<^verbatim>\<open>purge_all\<close>, each once and in publication order,
  and nothing else: nothing published in \<open>before\<close>, nothing published to another topic,
  nothing published after a purge. Publishing to a topic without subscribers returns and
  changes nothing.
\<close>

theorem fanout_delivery:
  assumes "b = fold fan_step before InMemoryBroker"
  shows "inboxes (fold fan_step after (snd (subscribe_fanout b t))) (fst (subscribe_fanout b t))
           = published_before_purge t after \<and>
         (fanout_subscriber_count b u = 0 \<longrightarrow> publish_fanout b u m = b)"
proof -
  have ra: "refs_allocated b"
    using assms refs_allocated_fold[OF refs_allocated_init] by simp
  have r: "fst (subscribe_fanout b t) = next_inbox b"
    by (simp add: subscribe_fanout_def Let_def)
  have "sole_subscription (snd (subscribe_fanout b t)) t (next_inbox b)"
    using sole_subscription_fresh[OF ra] .
  from inboxes_fold[OF this, of after]
  have "inboxes (fold fan_step after (snd (subscribe_fanout b t))) (next_inbox b)
          = inboxes (snd (subscribe_fanout b t)) (next_inbox b) @ published_before_purge t after" .
  moreover have "inboxes (snd (subscribe_fanout b t)) (next_inbox b) = []"
    by (simp add: inboxes_subscribe_fanout)
  moreover have "fanout_subscriber_count b u = 0 \<Longrightarrow> publish_fanout b u m = b"
    by (simp add: fanout_subscriber_count_def publish_fanout_def)
  ultimately show ?thesis
    using r by simp
qed

theorem fanout_delivery_witness:
  "inboxes
     (fold fan_step [Publish FEATURES_A feature_a_1, Subscribe FEATURES_A, Publish FEATURES_B bare_record,
                     PublishWork AUDIO_STREAM audio_1, ConsumeWork AUDIO_STREAM 0,
                     Publish FEATURES_A feature_a_2, Purge, Publish FEATURES_A bare_record]
        (snd (subscribe_fanout (fold fan_step [Subscribe FEATURES_A, Purge, Publish FEATURES_A bare_record]
                                   InMemoryBroker) FEATURES_A)))
     (fst (subscribe_fanout (fold fan_step [Subscribe FEATURES_A, Purge, Publish FEATURES_A bare_record]
                               InMemoryBroker) FEATURES_A))
     = [feature_a_1, feature_a_2] \<and>
   fanout_subscriber_count
     (fold fan_step [Subscribe FEATURES_A, Purge, Publish FEATURES_A bare_record] InMemoryBroker)
     FEATURES_B = 0 \<and>
   publish_fanout (fold fan_step [Subscribe FEATURES_A, Purge, Publish FEATURES_A bare_record] InMemoryBroker)
     FEATURES_B feature_a_1
     = fold fan_step [Subscribe FEATURES_A, Purge, Publish FEATURES_A bare_record] InMemoryBroker"
proof -
  have c: "fanout_subscriber_count
     (fold fan_step [Subscribe FEATURES_A, Purge, Publish FEATURES_A bare_record] InMemoryBroker)
     FEATURES_B = 0"
    by (simp add: fanout_subscriber_count_def)
  show ?thesis
    using c fanout_delivery[OF refl,
        of "[Publish FEATURES_A feature_a_1, Subscribe FEATURES_A, Publish FEATURES_B bare_record,
             PublishWork AUDIO_STREAM audio_1, ConsumeWork AUDIO_STREAM 0,
             Publish FEATURES_A feature_a_2, Purge, Publish FEATURES_A bare_record]"
           "[Subscribe FEATURES_A, Purge, Publish FEATURES_A bare_record]" FEATURES_A FEATURES_B feature_a_1]
    by (simp add: FEATURES_A_def FEATURES_B_def)
qed

subsection \<open>Purging\<close>

text \<open>
  C5, as claimed, fails: \<^verbatim>\<open>purge_all\<close> replaces \<^verbatim>\<open>_fanout\<close> by an empty dict as well, so a
  topic with one subscriber has none afterwards.
\<close>

theorem purge_all_drops_subscriptions:
  "fanout_subscriber_count (snd (subscribe_fanout InMemoryBroker FEATURES_A)) FEATURES_A = 1 \<and>
   fanout_subscriber_count (purge_all (snd (subscribe_fanout InMemoryBroker FEATURES_A))) FEATURES_A = 0"
  by (simp add: fanout_subscriber_count_def subscribers_def subscribe_fanout_def purge_all_def
      InMemoryBroker_def Let_def)

text \<open>
  C5, amended. \<^verbatim>\<open>purge_all\<close> clears the work queues and the fan-out subscriptions: after it
  every work queue has depth 0 and every topic has 0 subscribers. The inboxes handed out
  before keep what they hold, and a later publish reaches none of them.
\<close>

theorem purge_all_clears_queues_and_subscriptions:
  "work_queue_depth (purge_all b) q = 0 \<and>
   fanout_subscriber_count (purge_all b) t = 0 \<and>
   inboxes (purge_all b) = inboxes b \<and>
   inboxes (publish_fanout (purge_all b) t m) = inboxes b"
  by (simp add: work_queue_depth_def fanout_subscriber_count_def subscribers_def purge_all_def
      publish_fanout_def)

section \<open>Properties of the writer\<close>

subsection \<open>Idempotent write\<close>

lemma any_duplicate_ids:
  "\<forall>r \<in> set db. r ''message_id'' \<noteq> None \<Longrightarrow> m ''message_id'' \<noteq> None \<Longrightarrow>
   any_duplicate db m = Inr (\<exists>r \<in> set db. r ''message_id'' = m ''message_id'')"
  by (induction db) auto

lemma write_new:
  assumes "unique_ids db" and "m ''message_id'' \<noteq> None"
    and "\<not> (\<exists>r \<in> set db. r ''message_id'' = m ''message_id'')"
  shows "DataWriter_write db m = (Inr True, db @ [m])"
  using assms any_duplicate_ids[of db m]
  by (auto simp: DataWriter_write_def unique_ids_def)

lemma write_duplicate:
  assumes "unique_ids db" and "m ''message_id'' \<noteq> None"
    and "\<exists>r \<in> set db. r ''message_id'' = m ''message_id''"
  shows "DataWriter_write db m = (Inr False, db)"
  using assms any_duplicate_ids[of db m]
  by (auto simp: DataWriter_write_def unique_ids_def)

lemma write_keeps_unique:
  assumes "unique_ids db" and "m ''message_id'' \<noteq> None"
  shows "unique_ids (snd (DataWriter_write db m))"
proof (cases "\<exists>r \<in> set db. r ''message_id'' = m ''message_id''")
  case True
  then show ?thesis
    using write_duplicate[of db m] assms by simp
next
  case False
  have "unique_ids (db @ [m])"
    using assms False by (auto simp: unique_ids_def)
  then show ?thesis
    using write_new[of db m] assms False by simp
qed

lemma write_many_keeps_unique:
  "unique_ids db \<Longrightarrow> \<forall>m \<in> set ms. m ''message_id'' \<noteq> None \<Longrightarrow>
   unique_ids (snd (write_many db ms))"
proof (induction ms arbitrary: db)
  case Nil
  then show ?case by simp
next
  case (Cons m ms)
  have u: "unique_ids (snd (DataWriter_write db m))"
    using write_keeps_unique[of db m] Cons.prems by simp
  show ?case
    using Cons.IH[OF u] Cons.prems(2) by (simp add: split_beta)
qed

lemma distinct_filter_one:
  "distinct (map f xs) \<Longrightarrow> r \<in> set xs \<Longrightarrow> length (filter (\<lambda>x. f x = f r) xs) = 1"
proof (induction xs)
  case Nil
  then show ?case by simp
next
  case (Cons x xs)
  show ?case
  proof (cases "r = x")
    case True
    have "\<And>y. y \<in> set xs \<Longrightarrow> f y \<noteq> f x"
      using Cons.prems(1) by (metis distinct.simps(2) image_eqI list.simps(9) set_map)
    then have "filter (\<lambda>y. f y = f x) xs = []"
      by (simp add: filter_empty_conv)
    then show ?thesis
      using True by simp
  next
    case False
    then have r: "r \<in> set xs"
      using Cons.prems(2) by simp
    then have "f x \<noteq> f r"
      using Cons.prems(1) by auto
    then show ?thesis
      using Cons.IH r Cons.prems(1) by simp
  qed
qed

text \<open>
  C1. On a store whose records all have a \<^verbatim>\<open>message_id\<close>, no two the same (the empty store
  is one), and for records with a \<^verbatim>\<open>message_id\<close>: \<^verbatim>\<open>_write\<close> returns \<^verbatim>\<open>False\<close> and leaves
  the store as it is when a stored record has the same \<^verbatim>\<open>message_id\<close>, and otherwise returns
  \<^verbatim>\<open>True\<close> and appends the record; after any run of writes the store still has no two
  records with the same \<^verbatim>\<open>message_id\<close>; and writing the same record a second time returns
  \<^verbatim>\<open>False\<close>, with exactly one stored record of that \<^verbatim>\<open>message_id\<close>.
\<close>

theorem write_idempotent_unique:
  assumes "unique_ids db" and "m ''message_id'' \<noteq> None"
    and "\<forall>x \<in> set ms. x ''message_id'' \<noteq> None"
  shows "DataWriter_write db m =
           (if \<exists>r \<in> set db. r ''message_id'' = m ''message_id'' then (Inr False, db)
            else (Inr True, db @ [m])) \<and>
         unique_ids (snd (write_many [] ms)) \<and>
         unique_ids (snd (write_many db ms)) \<and>
         DataWriter_write (snd (DataWriter_write db m)) m = (Inr False, snd (DataWriter_write db m)) \<and>
         length (filter (\<lambda>r. r ''message_id'' = m ''message_id'') (snd (DataWriter_write db m))) = 1"
proof -
  let ?db1 = "snd (DataWriter_write db m)"
  have one: "DataWriter_write db m =
           (if \<exists>r \<in> set db. r ''message_id'' = m ''message_id'' then (Inr False, db)
            else (Inr True, db @ [m]))"
    using write_new[of db m] write_duplicate[of db m] assms(1,2) by auto
  have u1: "unique_ids ?db1"
    using write_keeps_unique[of db m] assms(1,2) by simp
  have e: "unique_ids []"
    by (simp add: unique_ids_def)
  have stored: "\<exists>r \<in> set ?db1. r ''message_id'' = m ''message_id''"
    using one by (auto split: if_splits)
  have again: "DataWriter_write ?db1 m = (Inr False, ?db1)"
    using write_duplicate[of ?db1 m] u1 assms(2) stored by simp
  obtain r where r: "r \<in> set ?db1" "r ''message_id'' = m ''message_id''"
    using stored by blast
  have cnt: "length (filter (\<lambda>x. x ''message_id'' = m ''message_id'') ?db1) = 1"
    using distinct_filter_one[of "\<lambda>x. x ''message_id''" ?db1 r] u1 r
    by (simp add: unique_ids_def)
  show ?thesis
    using one u1 write_many_keeps_unique[OF e assms(3)] write_many_keeps_unique[OF assms(1,3)]
      again cnt
    by simp
qed

theorem write_idempotent_unique_witness:
  "unique_ids [feature_a_1] \<and> feature_a_2 ''message_id'' \<noteq> None \<and>
   DataWriter_write [feature_a_1] feature_a_2 = (Inr True, [feature_a_1, feature_a_2]) \<and>
   DataWriter_write [feature_a_1, feature_a_2] feature_a_2 = (Inr False, [feature_a_1, feature_a_2]) \<and>
   unique_ids (snd (write_many [feature_a_1] [feature_a_2, feature_a_2, feature_a_1]))"
proof -
  have h1: "unique_ids [feature_a_1]"
    by (simp add: unique_ids_def feature_a_1_def)
  have h2: "feature_a_2 ''message_id'' \<noteq> None"
    by (simp add: feature_a_2_def)
  have h3: "\<forall>x \<in> set [feature_a_2, feature_a_2, feature_a_1]. x ''message_id'' \<noteq> None"
    by (simp add: feature_a_1_def feature_a_2_def)
  have ne: "feature_a_1 ''message_id'' \<noteq> feature_a_2 ''message_id''"
    by (simp add: feature_a_1_def feature_a_2_def)
  note t = write_idempotent_unique
      [of "[feature_a_1]" feature_a_2 "[feature_a_2, feature_a_2, feature_a_1]"]
  have w: "DataWriter_write [feature_a_1] feature_a_2 = (Inr True, [feature_a_1, feature_a_2])"
    using t h1 h2 h3 ne by simp
  have w2: "DataWriter_write [feature_a_1, feature_a_2] feature_a_2
              = (Inr False, [feature_a_1, feature_a_2])"
    using t h1 h2 h3 w by (simp del: write_many.simps)
  have u: "unique_ids (snd (write_many [feature_a_1] [feature_a_2, feature_a_2, feature_a_1]))"
    using t h1 h2 h3 by (simp del: write_many.simps)
  show ?thesis
    using h1 h2 h3 w w2 u by (simp del: write_many.simps)
qed

subsection \<open>Query\<close>

lemma filter_exn_returns:
  "filter_exn p rs = Inr ys \<Longrightarrow> ys = filter (\<lambda>r. p r = Inr True) rs"
proof (induction rs arbitrary: ys)
  case Nil
  then show ?case by simp
next
  case (Cons r rs)
  then show ?case
    by (cases "p r"; cases "filter_exn p rs") (auto split: if_splits)
qed

lemma filter_exn_total:
  "\<forall>r \<in> set rs. \<exists>b. p r = Inr b \<Longrightarrow> \<exists>ys. filter_exn p rs = Inr ys"
proof (induction rs)
  case Nil
  show ?case by simp
next
  case (Cons r rs)
  then obtain b ys where "p r = Inr b" "filter_exn p rs = Inr ys"
    by auto
  then show ?case by simp
qed

lemma ge_start_True: "ge_start s r = Inr True \<longleftrightarrow> (\<exists>t. timestamp_of r = Inr t \<and> s \<le> t)"
  by (cases "timestamp_of r") (auto simp: ge_start_def)

lemma le_end_True: "le_end e r = Inr True \<longleftrightarrow> (\<exists>t. timestamp_of r = Inr t \<and> t \<le> e)"
  by (cases "timestamp_of r") (auto simp: le_end_def)

lemma query_returns_matches:
  assumes "DataWriter_query db ft sid st en = Inr rs"
  shows "rs = filter (matches ft sid st en) db"
proof -
  let ?r1 = "if supplied ft then filter (\<lambda>r. r ''feature_type'' = Some (PStr (the ft))) db else db"
  let ?r2 = "if supplied sid then filter (\<lambda>r. r ''sensor_id'' = Some (PStr (the sid))) ?r1 else ?r1"
  let ?s3 = "if supplied st then filter_exn (ge_start (the st)) ?r2 else Inr ?r2"
  obtain r3 where r3: "?s3 = Inr r3"
    using assms by (cases ?s3) (simp_all add: DataWriter_query_def Let_def)
  have r4: "(if supplied en then filter_exn (le_end (the en)) r3 else Inr r3) = Inr rs"
    using assms r3 by (simp add: DataWriter_query_def Let_def)
  have e3: "r3 = (if supplied st then filter (\<lambda>r. ge_start (the st) r = Inr True) ?r2 else ?r2)"
    using r3 filter_exn_returns[of "ge_start (the st)" ?r2 r3] by (simp split: if_splits)
  have e4: "rs = (if supplied en then filter (\<lambda>r. le_end (the en) r = Inr True) r3 else r3)"
    using r4 filter_exn_returns[of "le_end (the en)" r3 rs] by (simp split: if_splits)
  have m: "\<And>r. matches ft sid st en r \<longleftrightarrow>
      (supplied ft \<longrightarrow> r ''feature_type'' = Some (PStr (the ft))) \<and>
      (supplied sid \<longrightarrow> r ''sensor_id'' = Some (PStr (the sid))) \<and>
      (supplied st \<longrightarrow> ge_start (the st) r = Inr True) \<and>
      (supplied en \<longrightarrow> le_end (the en) r = Inr True)"
    by (simp add: matches_def ge_start_True le_end_True)
  show ?thesis
    unfolding e4 e3 m
    by (cases "supplied ft"; cases "supplied sid"; cases "supplied st"; cases "supplied en")
       (simp_all add: conj_commute conj_left_commute cong: conj_cong)
qed

lemma ge_start_defined:
  "timestamps_are_strings db \<Longrightarrow> r \<in> set db \<Longrightarrow> \<exists>b. ge_start s r = Inr b"
  unfolding timestamps_are_strings_def ge_start_def
  by (metis old.sum.simps(6))

lemma le_end_defined:
  "timestamps_are_strings db \<Longrightarrow> r \<in> set db \<Longrightarrow> \<exists>b. le_end e r = Inr b"
  unfolding timestamps_are_strings_def le_end_def
  by (metis old.sum.simps(6))

lemma filter_exn_subset: "filter_exn p rs = Inr ys \<Longrightarrow> set ys \<subseteq> set rs"
  using filter_exn_returns[of p rs ys] by auto

lemma query_total:
  assumes "timestamps_are_strings db"
  shows "\<exists>rs. DataWriter_query db ft sid st en = Inr rs"
proof -
  define r1 where "r1 = (if supplied ft then filter (\<lambda>r. r ''feature_type'' = Some (PStr (the ft))) db else db)"
  define r2 where "r2 = (if supplied sid then filter (\<lambda>r. r ''sensor_id'' = Some (PStr (the sid))) r1 else r1)"
  have q: "DataWriter_query db ft sid st en =
      (case (if supplied st then filter_exn (ge_start (the st)) r2 else Inr r2) of
         Inl e \<Rightarrow> Inl e
       | Inr r3 \<Rightarrow> (if supplied en then filter_exn (le_end (the en)) r3 else Inr r3))"
    unfolding DataWriter_query_def Let_def r1_def r2_def ..
  have sub2: "set r2 \<subseteq> set db"
    unfolding r2_def r1_def by auto
  have "\<forall>r \<in> set r2. \<exists>b. ge_start (the st) r = Inr b"
    using ge_start_defined[OF assms] sub2 by blast
  then obtain y3 where y3: "filter_exn (ge_start (the st)) r2 = Inr y3"
    using filter_exn_total[of r2 "ge_start (the st)"] by blast
  define r3 where "r3 = (if supplied st then y3 else r2)"
  have s3: "(if supplied st then filter_exn (ge_start (the st)) r2 else Inr r2) = Inr r3"
    unfolding r3_def using y3 by simp
  have sub3: "set r3 \<subseteq> set db"
    unfolding r3_def using filter_exn_subset[OF y3] sub2 by auto
  have "\<forall>r \<in> set r3. \<exists>b. le_end (the en) r = Inr b"
    using le_end_defined[OF assms] sub3 by blast
  then obtain y4 where y4: "filter_exn (le_end (the en)) r3 = Inr y4"
    using filter_exn_total[of r3 "le_end (the en)"] by blast
  show ?thesis
    unfolding q s3 using y4 by simp
qed

lemma timestamp_of_missing: "r ''timestamp'' = None \<Longrightarrow> timestamp_of r = Inr []"
  by (simp add: timestamp_of_def)

lemma string_le_Nil: "(s::string) \<le> [] \<longleftrightarrow> s = []"
  by (cases s) simp_all

text \<open>
  C6, as claimed, fails on the in-memory writer. A filter that is the empty string is not
  applied (the record returned first has \<^verbatim>\<open>feature_type\<close> \<^verbatim>\<open>"A"\<close>, not \<^verbatim>\<open>""\<close>), and the
  result is in store order, here with the later timestamp first.
\<close>

theorem query_ignores_empty_filter_and_keeps_store_order:
  "DataWriter_query [feature_a_1, feature_a_2] (Some []) None None None
     = Inr [feature_a_1, feature_a_2] \<and>
   DataWriter_query [feature_a_1, feature_a_2] None None None None
     = Inr [feature_a_1, feature_a_2] \<and>
   feature_a_1 ''feature_type'' = Some (PStr ''A'') \<and>
   feature_a_1 ''timestamp'' = Some (PStr ''2024-01-15T12:00:00+00:00'') \<and>
   feature_a_2 ''timestamp'' = Some (PStr ''2024-01-15T08:00:00+00:00'') \<and>
   \<not> ''2024-01-15T12:00:00+00:00'' \<le> ''2024-01-15T08:00:00+00:00''"
  by (simp add: DataWriter_query_def feature_a_1_def feature_a_2_def)

text \<open>
  C6, amended. On a store whose timestamps are strings, for every combination of filters,
  \<^verbatim>\<open>query\<close> returns, and returns exactly the stored records, each as often as it is
  stored, that satisfy the conjunction of the filters that are supplied and not empty:
  \<^verbatim>\<open>feature_type\<close> equal, \<^verbatim>\<open>sensor_id\<close> equal, timestamp at or after \<open>start\<close>, timestamp
  at or before \<open>end\<close>, a missing timestamp counting as the empty string. With no filter it
  returns every stored record.
\<close>

theorem query_returns_matching_records:
  assumes "timestamps_are_strings db"
  shows "(\<exists>rs. DataWriter_query db ft sid st en = Inr rs \<and>
               mset rs = filter_mset (matches ft sid st en) (mset db)) \<and>
         (\<exists>rs. DataWriter_query db None None None None = Inr rs \<and> mset rs = mset db)"
proof -
  obtain rs where rs: "DataWriter_query db ft sid st en = Inr rs"
    using query_total[OF assms] by blast
  have "mset rs = filter_mset (matches ft sid st en) (mset db)"
    using query_returns_matches[OF rs] by simp
  moreover have "DataWriter_query db None None None None = Inr db"
    by (simp add: DataWriter_query_def)
  ultimately show ?thesis
    using rs by simp
qed

theorem query_returns_matching_records_witness:
  "timestamps_are_strings [feature_a_1, feature_a_2, bare_record] \<and>
   (\<exists>rs. DataWriter_query [feature_a_1, feature_a_2, bare_record]
            (Some ''A'') None (Some ''2024-01-15T10:00:00+00:00'') None = Inr rs \<and>
         mset rs = filter_mset (matches (Some ''A'') None (Some ''2024-01-15T10:00:00+00:00'') None)
                     (mset [feature_a_1, feature_a_2, bare_record]))"
proof -
  have h: "timestamps_are_strings [feature_a_1, feature_a_2, bare_record]"
    by (simp add: timestamps_are_strings_def timestamp_of_def feature_a_1_def feature_a_2_def
        bare_record_def)
  show ?thesis
    using h query_returns_matching_records[OF h, of "Some ''A''" None
        "Some ''2024-01-15T10:00:00+00:00''" None]
    by blast
qed

text \<open>
  C10. For the in-memory writer: a filter given as the empty string has the effect of no
  filter; a record returned under a \<^verbatim>\<open>feature_type\<close> or \<^verbatim>\<open>sensor_id\<close> filter has that
  field, and one returned under a \<open>start\<close> bound has a timestamp; a stored record without
  timestamp that passes the \<^verbatim>\<open>feature_type\<close> and \<^verbatim>\<open>sensor_id\<close> filters is returned under
  any \<open>end\<close> bound when no \<open>start\<close> bound is in effect. The query returns whenever the
  stored timestamps are strings.
\<close>

theorem query_filter_edge_cases:
  "DataWriter_query db (Some []) sid st en = DataWriter_query db None sid st en \<and>
   DataWriter_query db ft (Some []) st en = DataWriter_query db ft None st en \<and>
   DataWriter_query db ft sid (Some []) en = DataWriter_query db ft sid None en \<and>
   DataWriter_query db ft sid st (Some []) = DataWriter_query db ft sid st None \<and>
   (DataWriter_query db ft sid st en = Inr rs \<longrightarrow> r \<in> set rs \<longrightarrow>
      (supplied ft \<longrightarrow> r ''feature_type'' \<noteq> None) \<and>
      (supplied sid \<longrightarrow> r ''sensor_id'' \<noteq> None) \<and>
      (supplied st \<longrightarrow> r ''timestamp'' \<noteq> None)) \<and>
   (DataWriter_query db ft sid st en = Inr rs \<longrightarrow> r \<in> set db \<longrightarrow> r ''timestamp'' = None \<longrightarrow>
      \<not> supplied st \<longrightarrow>
      (supplied ft \<longrightarrow> r ''feature_type'' = Some (PStr (the ft))) \<longrightarrow>
      (supplied sid \<longrightarrow> r ''sensor_id'' = Some (PStr (the sid))) \<longrightarrow>
      r \<in> set rs) \<and>
   (timestamps_are_strings db \<longrightarrow> (\<exists>ys. DataWriter_query db ft sid st en = Inr ys))"
proof -
  have empty: "DataWriter_query db (Some []) sid st en = DataWriter_query db None sid st en"
    "DataWriter_query db ft (Some []) st en = DataWriter_query db ft None st en"
    "DataWriter_query db ft sid (Some []) en = DataWriter_query db ft sid None en"
    "DataWriter_query db ft sid st (Some []) = DataWriter_query db ft sid st None"
    by (simp_all add: DataWriter_query_def split: sum.splits)
  have excluded: "(supplied ft \<longrightarrow> r ''feature_type'' \<noteq> None) \<and>
      (supplied sid \<longrightarrow> r ''sensor_id'' \<noteq> None) \<and>
      (supplied st \<longrightarrow> r ''timestamp'' \<noteq> None)"
    if q: "DataWriter_query db ft sid st en = Inr rs" and r: "r \<in> set rs"
  proof -
    have m: "matches ft sid st en r"
      using query_returns_matches[OF q] r by simp
    have "r ''timestamp'' \<noteq> None" if s: "supplied st"
    proof
      assume "r ''timestamp'' = None"
      then have "timestamp_of r = Inr []"
        by (rule timestamp_of_missing)
      then have "the st \<le> []"
        using m s by (simp add: matches_def)
      then show False
        using s by (cases st) (simp_all add: string_le_Nil)
    qed
    then show ?thesis
      using m by (auto simp: matches_def)
  qed
  have included: "r \<in> set rs"
    if q: "DataWriter_query db ft sid st en = Inr rs" and r: "r \<in> set db"
      and t: "r ''timestamp'' = None" and s: "\<not> supplied st"
      and f: "supplied ft \<longrightarrow> r ''feature_type'' = Some (PStr (the ft))"
      and i: "supplied sid \<longrightarrow> r ''sensor_id'' = Some (PStr (the sid))"
  proof -
    have "matches ft sid st en r"
      using s f i t timestamp_of_missing[of r] by (simp add: matches_def)
    then show ?thesis
      using query_returns_matches[OF q] r by simp
  qed
  show ?thesis
    using empty excluded included query_total[of db ft sid st en] by blast
qed

theorem query_filter_edge_cases_witness:
  "DataWriter_query [feature_a_1, bare_record] None None None (Some ''2024-01-15T09:00:00+00:00'')
     = Inr [bare_record] \<and>
   DataWriter_query [feature_a_1, bare_record] None None (Some ''2024-01-15T09:00:00+00:00'') None
     = Inr [feature_a_1] \<and>
   bare_record ''timestamp'' = None \<and> bare_record \<in> set [bare_record] \<and>
   feature_a_1 ''timestamp'' \<noteq> None"
proof -
  have q1: "DataWriter_query [feature_a_1, bare_record] None None None
              (Some ''2024-01-15T09:00:00+00:00'') = Inr [bare_record]"
    by (simp add: DataWriter_query_def le_end_def timestamp_of_def feature_a_1_def bare_record_def)
  have q2: "DataWriter_query [feature_a_1, bare_record] None None
              (Some ''2024-01-15T09:00:00+00:00'') None = Inr [feature_a_1]"
    by (simp add: DataWriter_query_def ge_start_def timestamp_of_def feature_a_1_def bare_record_def)
  have t: "bare_record ''timestamp'' = None"
    by (simp add: bare_record_def)
  note e1 = query_filter_edge_cases[where db = "[feature_a_1, bare_record]" and ft = None
      and sid = None and st = "Some ''2024-01-15T09:00:00+00:00''" and en = None
      and rs = "[feature_a_1]" and r = feature_a_1]
  note e2 = query_filter_edge_cases[where db = "[feature_a_1, bare_record]" and ft = None
      and sid = None and st = None and en = "Some ''2024-01-15T09:00:00+00:00''"
      and rs = "[bare_record]" and r = bare_record]
  have "feature_a_1 ''timestamp'' \<noteq> None"
    using e1 q2 by simp
  moreover have "bare_record \<in> set [bare_record]"
    using e2 q1 t by simp
  ultimately show ?thesis
    using q1 q2 t by simp
qed

section \<open>Properties of the stage processors\<close>

subsection \<open>Validation and processing of one message\<close>


lemma missing_fields_empty:
  "missing_fields req m = [] \<longleftrightarrow> (\<forall>k \<in> set req. m k \<noteq> None)"
  by (auto simp: missing_fields_def filter_empty_conv)

lemma AlgorithmA_validate_eq:
  "AlgorithmA_validate E m =
     (if (\<exists>k \<in> set REQUIRED_FIELDS_A. m k = None) \<or>
         \<not> truthy (the (m ''audio_data'')) \<or>
         \<not> timestamp_parses E (the (m ''timestamp''))
      then Some ValueError else None)"
proof (cases "missing_fields REQUIRED_FIELDS_A m = []")
  case True
  then obtain a t where "m ''audio_data'' = Some a" "m ''timestamp'' = Some t"
    by (auto simp: missing_fields_empty REQUIRED_FIELDS_A_def)
  then show ?thesis
    using True by (auto simp: AlgorithmA_validate_def missing_fields_empty)
next
  case False
  then show ?thesis
    by (auto simp: AlgorithmA_validate_def missing_fields_empty)
qed

lemma AlgorithmB_validate_eq:
  "AlgorithmB_validate m =
     (if \<exists>k \<in> set REQUIRED_FIELDS_B. m k = None then Some ValueError
      else if m ''feature_type'' \<noteq> Some (PStr ''A'') then Some TypeError
      else None)"
  by (auto simp: AlgorithmB_validate_def missing_fields_empty)

lemma AlgorithmA_process_invalid:
  "AlgorithmA_validate E m = Some e \<Longrightarrow> AlgorithmA_process E m w = (Inl e, w)"
  by (simp add: AlgorithmA_process_def)

lemma AlgorithmA_valid_fields:
  assumes "AlgorithmA_validate E m = None"
  shows "\<exists>mid sid ts audio. m ''message_id'' = Some mid \<and> m ''sensor_id'' = Some sid \<and>
           m ''timestamp'' = Some ts \<and> m ''audio_data'' = Some audio"
proof -
  have "\<forall>k \<in> set REQUIRED_FIELDS_A. m k \<noteq> None"
    using assms by (simp add: AlgorithmA_validate_eq split: if_splits)
  then show ?thesis
    by (simp add: REQUIRED_FIELDS_A_def)
qed

lemma AlgorithmA_process_valid:
  assumes "AlgorithmA_validate E m = None"
  shows "AlgorithmA_process E m w =
           (case extract_features E (the (m ''audio_data'')) of
              Inl e \<Rightarrow> (Inl e, w\<lparr>draws := Suc (draws w)\<rparr>)
            | Inr f \<Rightarrow> (Inr (feature_a_record E m (draws w) f), w\<lparr>draws := Suc (draws w)\<rparr>))"
proof -
  obtain mid sid ts audio where f: "m ''message_id'' = Some mid" "m ''sensor_id'' = Some sid"
      "m ''timestamp'' = Some ts" "m ''audio_data'' = Some audio"
    using AlgorithmA_valid_fields[OF assms] by blast
  show ?thesis
    using assms f
    by (simp add: AlgorithmA_process_def Let_def feature_a_record_def split: sum.splits)
qed

lemma AlgorithmB_process_invalid:
  "AlgorithmB_validate m = Some e \<Longrightarrow> AlgorithmB_process E m w = (Inl e, w)"
  by (simp add: AlgorithmB_process_def)

lemma AlgorithmB_valid_fields:
  assumes "AlgorithmB_validate m = None"
  shows "\<exists>mid sid ts. m ''message_id'' = Some mid \<and> m ''sensor_id'' = Some sid \<and>
           m ''timestamp'' = Some ts"
proof -
  have "\<forall>k \<in> set REQUIRED_FIELDS_B. m k \<noteq> None"
    using assms by (simp add: AlgorithmB_validate_eq split: if_splits)
  then show ?thesis
    by (simp add: REQUIRED_FIELDS_B_def)
qed

lemma AlgorithmB_process_valid:
  assumes "AlgorithmB_validate m = None"
  shows "AlgorithmB_process E m w =
           (case derive_features E m of
              Inl e \<Rightarrow> (Inl e, w\<lparr>draws := Suc (draws w)\<rparr>)
            | Inr f \<Rightarrow> (Inr (feature_b_record E m (draws w) f), w\<lparr>draws := Suc (draws w)\<rparr>))"
proof -
  obtain mid sid ts where f: "m ''message_id'' = Some mid" "m ''sensor_id'' = Some sid"
      "m ''timestamp'' = Some ts"
    using AlgorithmB_valid_fields[OF assms] by blast
  show ?thesis
    using assms f
    by (simp add: AlgorithmB_process_def Let_def feature_b_record_def split: sum.splits)
qed



lemma AlgorithmA_process_result:
  "fst (AlgorithmA_process E m w) =
     (case AlgorithmA_validate E m of
        Some e \<Rightarrow> Inl e
      | None \<Rightarrow>
          (case extract_features E (the (m ''audio_data'')) of
             Inl e \<Rightarrow> Inl e
           | Inr f \<Rightarrow> Inr (feature_a_record E m (draws w) f)))"
proof (cases "AlgorithmA_validate E m")
  case None
  then show ?thesis
    by (simp add: AlgorithmA_process_valid split: sum.splits)
next
  case (Some e)
  then show ?thesis
    by (simp add: AlgorithmA_process_invalid)
qed

lemma AlgorithmB_process_result:
  "fst (AlgorithmB_process E m w) =
     (case AlgorithmB_validate m of
        Some e \<Rightarrow> Inl e
      | None \<Rightarrow>
          (case derive_features E m of
             Inl e \<Rightarrow> Inl e
           | Inr f \<Rightarrow> Inr (feature_b_record E m (draws w) f)))"
proof (cases "AlgorithmB_validate m")
  case None
  then show ?thesis
    by (simp add: AlgorithmB_process_valid split: sum.splits)
next
  case (Some e)
  then show ?thesis
    by (simp add: AlgorithmB_process_invalid)
qed

lemma AlgorithmA_process_frame:
  "bro (snd (AlgorithmA_process E m w)) = bro w \<and> store (snd (AlgorithmA_process E m w)) = store w"
proof (cases "AlgorithmA_validate E m")
  case None
  then show ?thesis
    by (simp add: AlgorithmA_process_valid split: sum.splits)
next
  case (Some e)
  then show ?thesis
    by (simp add: AlgorithmA_process_invalid)
qed

lemma AlgorithmB_process_frame:
  "bro (snd (AlgorithmB_process E m w)) = bro w \<and> store (snd (AlgorithmB_process E m w)) = store w"
proof (cases "AlgorithmB_validate m")
  case None
  then show ?thesis
    by (simp add: AlgorithmB_process_valid split: sum.splits)
next
  case (Some e)
  then show ?thesis
    by (simp add: AlgorithmB_process_invalid)
qed

lemma AlgorithmA_error_iff:
  "fst (AlgorithmA_process E m w) = Inl e \<longleftrightarrow> AlgorithmA_error E m = Some e"
  by (auto simp: AlgorithmA_error_def AlgorithmA_process_result split: option.splits sum.splits)

lemma AlgorithmB_error_iff:
  "fst (AlgorithmB_process E m w) = Inl e \<longleftrightarrow> AlgorithmB_error E m = Some e"
  by (auto simp: AlgorithmB_error_def AlgorithmB_process_result split: option.splits sum.splits)

lemma extract_features_ValueError:
  "extract_features E a = Inl ValueError \<longleftrightarrow> (\<exists>s. a = PStr s \<and> py_b64decode E (s @ ''=='') = None)"
  by (cases a) (auto simp: extract_features_def split: option.splits)

subsection \<open>Errors of \<^verbatim>\<open>process\<close>\<close>

text \<open>
  C7, as claimed, fails for Stage B: its \<^verbatim>\<open>_validate\<close> checks that the required fields
  are there and that \<^verbatim>\<open>feature_type\<close> is \<^verbatim>\<open>"A"\<close>, and never parses the timestamp. A
  Feature-A record with the timestamp \<^verbatim>\<open>"not-a-date"\<close> passes it and \<^verbatim>\<open>process\<close> raises no
  \<^verbatim>\<open>ValueError\<close>, while Stage A rejects an audio message with that timestamp.
\<close>

theorem stage_b_accepts_unparsable_timestamp:
  "AlgorithmB_validate feature_a_bad_timestamp = None \<and>
   feature_a_bad_timestamp ''timestamp'' = Some (PStr ''not-a-date'') \<and>
   \<not> timestamp_parses example_env (PStr ''not-a-date'') \<and>
   fst (AlgorithmB_process example_env feature_a_bad_timestamp world_0) \<noteq> Inl ValueError \<and>
   AlgorithmA_validate example_env (audio_1(''timestamp'' \<mapsto> PStr ''not-a-date'')) = Some ValueError"
  by (simp add: AlgorithmB_process_result AlgorithmB_validate_eq AlgorithmA_validate_eq
      REQUIRED_FIELDS_A_def REQUIRED_FIELDS_B_def feature_a_bad_timestamp_def audio_1_def
      timestamp_parses_def example_env_def replace_Z_def derive_features_def derive_arithmetic_def
      mfcc_mean_def dict_get_def world_0_def)

text \<open>
  C7, amended. Stage A's \<^verbatim>\<open>_validate\<close> raises \<^verbatim>\<open>ValueError\<close> exactly when a required
  field is absent, \<^verbatim>\<open>audio_data\<close> is falsy, or the timestamp is not a string that
  \<^verbatim>\<open>fromisoformat\<close> accepts, and it raises nothing else (it looks at no discriminator tag).
  Stage B's \<^verbatim>\<open>_validate\<close> raises \<^verbatim>\<open>ValueError\<close> exactly when a required field is absent
  and \<^verbatim>\<open>TypeError\<close> exactly when all are present and \<^verbatim>\<open>feature_type\<close> is not \<^verbatim>\<open>"A"\<close>.
  \<^verbatim>\<open>process\<close> raises what \<^verbatim>\<open>_validate\<close> raises and then leaves the whole state as it was;
  Stage A's \<^verbatim>\<open>process\<close> raises \<^verbatim>\<open>ValueError\<close> exactly when \<^verbatim>\<open>_validate\<close> does or the
  audio payload does not decode. Whatever \<^verbatim>\<open>process\<close> does, the broker and the store are
  as before the call.
\<close>

theorem stage_errors:
  "(AlgorithmA_validate E m = Some ValueError \<longleftrightarrow>
      (\<exists>k \<in> set REQUIRED_FIELDS_A. m k = None) \<or>
      \<not> truthy (the (m ''audio_data'')) \<or>
      \<not> timestamp_parses E (the (m ''timestamp''))) \<and>
   (AlgorithmA_validate E m = None \<or> AlgorithmA_validate E m = Some ValueError) \<and>
   (AlgorithmB_validate m = Some ValueError \<longleftrightarrow> (\<exists>k \<in> set REQUIRED_FIELDS_B. m k = None)) \<and>
   (AlgorithmB_validate m = Some TypeError \<longleftrightarrow>
      \<not> (\<exists>k \<in> set REQUIRED_FIELDS_B. m k = None) \<and> m ''feature_type'' \<noteq> Some (PStr ''A'')) \<and>
   (AlgorithmA_validate E m = Some e \<longrightarrow> AlgorithmA_process E m w = (Inl e, w)) \<and>
   (AlgorithmB_validate m = Some e \<longrightarrow> AlgorithmB_process E m w = (Inl e, w)) \<and>
   (fst (AlgorithmA_process E m w) = Inl ValueError \<longleftrightarrow>
      AlgorithmA_validate E m = Some ValueError \<or>
      (\<exists>s. m ''audio_data'' = Some (PStr s) \<and> py_b64decode E (s @ ''=='') = None)) \<and>
   bro (snd (AlgorithmA_process E m w)) = bro w \<and>
   store (snd (AlgorithmA_process E m w)) = store w \<and>
   bro (snd (AlgorithmB_process E m w)) = bro w \<and>
   store (snd (AlgorithmB_process E m w)) = store w"
proof -
  have a1: "AlgorithmA_validate E m = Some ValueError \<longleftrightarrow>
      (\<exists>k \<in> set REQUIRED_FIELDS_A. m k = None) \<or>
      \<not> truthy (the (m ''audio_data'')) \<or>
      \<not> timestamp_parses E (the (m ''timestamp''))"
    by (simp add: AlgorithmA_validate_eq)
  have a2: "AlgorithmA_validate E m = None \<or> AlgorithmA_validate E m = Some ValueError"
    by (simp add: AlgorithmA_validate_eq)
  have b1: "AlgorithmB_validate m = Some ValueError \<longleftrightarrow> (\<exists>k \<in> set REQUIRED_FIELDS_B. m k = None)"
    by (simp add: AlgorithmB_validate_eq)
  have b2: "AlgorithmB_validate m = Some TypeError \<longleftrightarrow>
      \<not> (\<exists>k \<in> set REQUIRED_FIELDS_B. m k = None) \<and> m ''feature_type'' \<noteq> Some (PStr ''A'')"
    by (simp add: AlgorithmB_validate_eq)
  have a3: "fst (AlgorithmA_process E m w) = Inl ValueError \<longleftrightarrow>
      AlgorithmA_validate E m = Some ValueError \<or>
      (\<exists>s. m ''audio_data'' = Some (PStr s) \<and> py_b64decode E (s @ ''=='') = None)"
  proof (cases "AlgorithmA_validate E m")
    case None
    obtain audio where au: "m ''audio_data'' = Some audio"
      using AlgorithmA_valid_fields[OF None] by blast
    show ?thesis
      using None au extract_features_ValueError[of E audio]
      by (auto simp: AlgorithmA_process_result split: sum.splits)
  next
    case (Some e)
    then show ?thesis
      using a2 by (simp add: AlgorithmA_process_result)
  qed
  show ?thesis
    using a1 a2 b1 b2 a3 AlgorithmA_process_invalid[of E m e w] AlgorithmB_process_invalid[of m e E w]
      AlgorithmA_process_frame[of E m w] AlgorithmB_process_frame[of E m w]
    by blast
qed

theorem stage_errors_witness:
  "AlgorithmA_validate example_env bad_audio = Some ValueError \<and>
   AlgorithmA_process example_env bad_audio world_0 = (Inl ValueError, world_0) \<and>
   AlgorithmB_validate (feature_a_1(''feature_type'' \<mapsto> PStr ''B'')) = Some TypeError \<and>
   AlgorithmB_process example_env (feature_a_1(''feature_type'' \<mapsto> PStr ''B'')) world_0
     = (Inl TypeError, world_0)"
proof -
  have a: "\<exists>k \<in> set REQUIRED_FIELDS_A. bad_audio k = None"
    by (simp add: REQUIRED_FIELDS_A_def bad_audio_def)
  have b: "\<not> (\<exists>k \<in> set REQUIRED_FIELDS_B. (feature_a_1(''feature_type'' \<mapsto> PStr ''B'')) k = None)"
    by (simp add: REQUIRED_FIELDS_B_def feature_a_1_def)
  have c: "(feature_a_1(''feature_type'' \<mapsto> PStr ''B'')) ''feature_type'' \<noteq> Some (PStr ''A'')"
    by simp
  note ta = stage_errors[where E = example_env and m = bad_audio and e = ValueError and w = world_0]
  note tb = stage_errors[where E = example_env and m = "feature_a_1(''feature_type'' \<mapsto> PStr ''B'')"
      and e = TypeError and w = world_0]
  have va: "AlgorithmA_validate example_env bad_audio = Some ValueError"
    using ta a by blast
  have vb: "AlgorithmB_validate (feature_a_1(''feature_type'' \<mapsto> PStr ''B'')) = Some TypeError"
    using tb b c by blast
  show ?thesis
    using va vb ta tb by blast
qed

subsection \<open>Lineage and determinism\<close>

lemma feature_a_record_fields:
  "feature_a_record E m n f ''feature_type'' = Some (PStr ''A'')"
  "feature_a_record E m n f ''source_message_id'' = Some (the (m ''message_id''))"
  "feature_a_record E m n f ''sensor_id'' = Some (the (m ''sensor_id''))"
  "feature_a_record E m n f ''timestamp'' = Some (the (m ''timestamp''))"
  "feature_a_record E m n f ''message_id'' = Some (PStr (py_uuid4 E n))"
  "feature_a_record E m n f ''features'' = Some f"
  by (simp_all add: feature_a_record_def)

lemma feature_b_record_fields:
  "feature_b_record E m n f ''feature_type'' = Some (PStr ''B'')"
  "feature_b_record E m n f ''source_message_id'' = Some (the (m ''message_id''))"
  "feature_b_record E m n f ''sensor_id'' = Some (the (m ''sensor_id''))"
  "feature_b_record E m n f ''timestamp'' = Some (the (m ''timestamp''))"
  "feature_b_record E m n f ''features'' = Some f"
  by (simp_all add: feature_b_record_def)

lemma feature_a_record_valid_for_b: "AlgorithmB_validate (feature_a_record E m n f) = None"
  by (simp add: AlgorithmB_validate_eq REQUIRED_FIELDS_B_def feature_a_record_def)

lemma feature_a_record_draw:
  "k \<noteq> ''message_id'' \<Longrightarrow> k \<noteq> ''processed_at'' \<Longrightarrow>
   feature_a_record E m n f k = feature_a_record E m n' f k"
  by (simp add: feature_a_record_def)

lemma feature_b_record_draw:
  "k \<noteq> ''message_id'' \<Longrightarrow> k \<noteq> ''processed_at'' \<Longrightarrow>
   feature_b_record E m n f k = feature_b_record E m n' f k"
  by (simp add: feature_b_record_def)

lemma example_audio_1_valid: "AlgorithmA_validate example_env audio_1 = None"
  by (simp add: AlgorithmA_validate_eq REQUIRED_FIELDS_A_def audio_1_def timestamp_parses_def
      example_env_def replace_Z_def)

lemma example_audio_1_decodes:
  "py_b64decode example_env (''dGVzdGF1ZGlvZGF0YQ=='' @ ''=='')
     = Some [116, 101, 115, 116, 97, 117, 100, 105, 111, 100, 97, 116, 97]"
  by (simp add: example_env_def)

lemma example_audio_1_features:
  "extract_features example_env (the (audio_1 ''audio_data'')) = Inr (features_of_seed example_env 388)"
  by (simp add: extract_features_def audio_1_def example_env_def)

lemma example_process_audio_1:
  "AlgorithmA_process example_env audio_1 w =
     (Inr (feature_a_record example_env audio_1 (draws w) (features_of_seed example_env 388)),
      w\<lparr>draws := Suc (draws w)\<rparr>)"
  using AlgorithmA_process_valid[OF example_audio_1_valid, of w] example_audio_1_features by simp

text \<open>
  Stage B's arithmetic on Stage A's payload. The thirteen coefficients are at most 12 in
  magnitude, the centroid at most 1441 and the energy at most 6, so the operands are in the
  modelled range and \<^verbatim>\<open>_derive_features\<close> returns.
\<close>

lemma float_bounds_sin: "float_bounds E \<Longrightarrow> \<bar>fl_sin E x\<bar> \<le> 1"
  by (simp add: float_bounds_def)

lemma float_bounds_round: "float_bounds E \<Longrightarrow> \<bar>x\<bar> \<le> 2 ^ 12 \<Longrightarrow> \<bar>fl_round E x\<bar> \<le> \<bar>x\<bar> + 1"
  by (simp add: float_bounds_def)

lemma float_bounds_py_round:
  "float_bounds E \<Longrightarrow> \<bar>x\<bar> \<le> 2 ^ 12 \<Longrightarrow> \<bar>py_round E x n\<bar> \<le> \<bar>x\<bar> + 1"
  by (simp add: float_bounds_def)

lemma float_bounds_example: "float_bounds example_env"
  by (simp add: float_bounds_def example_env_def)

lemma mfcc_coefficient_bound:
  assumes "float_bounds E"
  shows "\<bar>py_round E (fl_round E (fl_sin E x * 10)) 4\<bar> \<le> 12"
proof -
  have "\<bar>fl_sin E x * 10\<bar> \<le> 10"
    using float_bounds_sin[OF assms, of x] by (simp add: abs_mult)
  then have "\<bar>fl_round E (fl_sin E x * 10)\<bar> \<le> 11"
    using float_bounds_round[OF assms, of "fl_sin E x * 10"] by simp
  then show ?thesis
    using float_bounds_py_round[OF assms, of "fl_round E (fl_sin E x * 10)" 4] by simp
qed

lemma centroid_bound:
  assumes "float_bounds E" and "seed < 1000"
  shows "\<bar>py_round E (fl_round E (440 + real seed)) 2\<bar> \<le> 1441"
proof -
  have "\<bar>440 + real seed\<bar> \<le> 1439"
    using assms(2) by simp
  then have "\<bar>fl_round E (440 + real seed)\<bar> \<le> 1440"
    using float_bounds_round[OF assms(1), of "440 + real seed"] by simp
  then show ?thesis
    using float_bounds_py_round[OF assms(1), of "fl_round E (440 + real seed)" 2] by simp
qed

lemma energy_bound:
  assumes "float_bounds E"
  shows "\<bar>py_round E (fl_round E (fl_round E (1 / 10) + fl_round E (real (seed mod 100) / 1000))) 4\<bar> \<le> 6"
proof -
  have a: "\<bar>fl_round E (1 / 10)\<bar> \<le> 2"
    using float_bounds_round[OF assms, of "1 / 10"] by simp
  have "real (seed mod 100) \<le> 100"
    by (simp add: less_imp_le)
  then have "\<bar>real (seed mod 100) / 1000\<bar> \<le> 1"
    by simp
  then have b: "\<bar>fl_round E (real (seed mod 100) / 1000)\<bar> \<le> 2"
    using float_bounds_round[OF assms, of "real (seed mod 100) / 1000"] by simp
  have "\<bar>fl_round E (1 / 10) + fl_round E (real (seed mod 100) / 1000)\<bar> \<le> 4"
    using a b by linarith
  then have "\<bar>fl_round E (fl_round E (1 / 10) + fl_round E (real (seed mod 100) / 1000))\<bar> \<le> 5"
    using float_bounds_round[OF assms, of "fl_round E (1 / 10) + fl_round E (real (seed mod 100) / 1000)"]
    by simp
  then show ?thesis
    using float_bounds_py_round[OF assms,
        of "fl_round E (fl_round E (1 / 10) + fl_round E (real (seed mod 100) / 1000))" 4]
    by simp
qed

lemma mfcc_mean_of_stage_a:
  assumes "float_bounds E"
  shows "mfcc_mean E (PList (map (\<lambda>i. PNum (py_round E (fl_round E (fl_sin E (real (seed + i)) * 10)) 4)) [0..<13]))
           \<noteq> None"
proof -
  let ?vs = "map (\<lambda>i. PNum (py_round E (fl_round E (fl_sin E (real (seed + i)) * 10)) 4)) [0..<13]"
  have "\<bar>py_round E (fl_round E (fl_sin E (real (seed + i)) * 10)) 4\<bar> \<le> 2 ^ 20" for i
    using mfcc_coefficient_bound[OF assms, of "real (seed + i)"] by simp
  then have r: "list_all number_in_range ?vs"
    unfolding list_all_iff by auto
  have l: "length ?vs \<le> 2 ^ 20" "?vs \<noteq> []"
    by simp_all
  show ?thesis
    unfolding mfcc_mean_def using r l by simp
qed

lemma derive_features_of_stage_a:
  assumes "float_bounds E" and "seed < 1000"
  shows "\<exists>g. derive_features E (feature_a_record E m n (features_of_seed E seed)) = Inr g"
proof -
  let ?mfcc = "PList (map (\<lambda>i. PNum (py_round E (fl_round E (fl_sin E (real (seed + i)) * 10)) 4)) [0..<13])"
  let ?c = "py_round E (fl_round E (440 + real seed)) 2"
  let ?e = "py_round E (fl_round E (fl_round E (1 / 10) + fl_round E (real (seed mod 100) / 1000))) 4"
  have d: "derive_features E (feature_a_record E m n (features_of_seed E seed))
             = derive_arithmetic E ?mfcc (PNum ?c) (PNum ?e)"
    by (simp add: derive_features_def feature_a_record_def features_of_seed_def dict_get_def
        fmlookup_of_list)
  have c: "number_in_range (PNum ?c)"
    using centroid_bound[OF assms] by simp
  have e: "number_in_range (PNum ?e)"
    using energy_bound[OF assms(1), of seed] by simp
  show ?thesis
    unfolding d derive_arithmetic_def using c e mfcc_mean_of_stage_a[OF assms(1), of seed] by simp
qed

text \<open>
  C8. Take an audio message that Stage A's \<^verbatim>\<open>_validate\<close> accepts and whose \<^verbatim>\<open>audio_data\<close>
  is a string that decodes, and floating-point functions within \<open>float_bounds\<close>. Stage A's
  \<^verbatim>\<open>process\<close> returns a record with \<^verbatim>\<open>feature_type\<close> \<^verbatim>\<open>"A"\<close>, whose
  \<^verbatim>\<open>source_message_id\<close> is the input's \<^verbatim>\<open>message_id\<close> and whose \<^verbatim>\<open>sensor_id\<close> and
  \<^verbatim>\<open>timestamp\<close> are the input's. Stage B's \<^verbatim>\<open>_validate\<close> accepts that record and Stage
  B's \<^verbatim>\<open>process\<close> returns on it: the result is a record with \<^verbatim>\<open>feature_type\<close> \<^verbatim>\<open>"B"\<close>,
  whose \<^verbatim>\<open>source_message_id\<close> is the Stage-A record's \<^verbatim>\<open>message_id\<close> and whose
  \<^verbatim>\<open>sensor_id\<close> and \<^verbatim>\<open>timestamp\<close> are still the audio message's.
\<close>

theorem lineage_propagation:
  assumes "AlgorithmA_validate E m = None"
    and "m ''audio_data'' = Some (PStr s)"
    and "py_b64decode E (s @ ''=='') = Some raw"
    and "float_bounds E"
  shows "\<exists>fa fb. AlgorithmA_process E m w = (Inr fa, w\<lparr>draws := Suc (draws w)\<rparr>) \<and>
           fa ''feature_type'' = Some (PStr ''A'') \<and>
           fa ''source_message_id'' = m ''message_id'' \<and> m ''message_id'' \<noteq> None \<and>
           fa ''sensor_id'' = m ''sensor_id'' \<and> m ''sensor_id'' \<noteq> None \<and>
           fa ''timestamp'' = m ''timestamp'' \<and> m ''timestamp'' \<noteq> None \<and>
           AlgorithmB_validate fa = None \<and>
           AlgorithmB_process E fa w' = (Inr fb, w'\<lparr>draws := Suc (draws w')\<rparr>) \<and>
           fb ''feature_type'' = Some (PStr ''B'') \<and>
           fb ''source_message_id'' = fa ''message_id'' \<and> fa ''message_id'' \<noteq> None \<and>
           fb ''sensor_id'' = m ''sensor_id'' \<and>
           fb ''timestamp'' = m ''timestamp''"
proof -
  let ?f = "features_of_seed E (sum_list raw mod 1000)"
  let ?fa = "feature_a_record E m (draws w) ?f"
  obtain mid sid ts where f: "m ''message_id'' = Some mid" "m ''sensor_id'' = Some sid"
      "m ''timestamp'' = Some ts"
    using AlgorithmA_valid_fields[OF assms(1)] by blast
  have ex: "extract_features E (the (m ''audio_data'')) = Inr ?f"
    using assms(2,3) by (simp add: extract_features_def)
  have pa: "AlgorithmA_process E m w = (Inr ?fa, w\<lparr>draws := Suc (draws w)\<rparr>)"
    using AlgorithmA_process_valid[OF assms(1), of w] ex by simp
  have vb: "AlgorithmB_validate ?fa = None"
    by (rule feature_a_record_valid_for_b)
  obtain g where g: "derive_features E ?fa = Inr g"
    using derive_features_of_stage_a[OF assms(4), of "sum_list raw mod 1000" m "draws w"] by auto
  let ?fb = "feature_b_record E ?fa (draws w') g"
  have pb: "AlgorithmB_process E ?fa w' = (Inr ?fb, w'\<lparr>draws := Suc (draws w')\<rparr>)"
    using AlgorithmB_process_valid[OF vb, of E w'] g by simp
  have inner: "?fb ''feature_type'' = Some (PStr ''B'') \<and>
            ?fb ''source_message_id'' = ?fa ''message_id'' \<and> ?fa ''message_id'' \<noteq> None \<and>
            ?fb ''sensor_id'' = m ''sensor_id'' \<and>
            ?fb ''timestamp'' = m ''timestamp''"
    using f by (simp add: feature_b_record_fields feature_a_record_fields)
  have outer: "?fa ''feature_type'' = Some (PStr ''A'') \<and>
           ?fa ''source_message_id'' = m ''message_id'' \<and> m ''message_id'' \<noteq> None \<and>
           ?fa ''sensor_id'' = m ''sensor_id'' \<and> m ''sensor_id'' \<noteq> None \<and>
           ?fa ''timestamp'' = m ''timestamp'' \<and> m ''timestamp'' \<noteq> None"
    using f by (simp add: feature_a_record_fields)
  show ?thesis
    using pa vb pb outer inner by blast
qed

theorem lineage_propagation_witness:
  "AlgorithmA_validate example_env audio_1 = None \<and>
   audio_1 ''audio_data'' = Some (PStr ''dGVzdGF1ZGlvZGF0YQ=='') \<and>
   py_b64decode example_env (''dGVzdGF1ZGlvZGF0YQ=='' @ ''=='')
     = Some [116, 101, 115, 116, 97, 117, 100, 105, 111, 100, 97, 116, 97] \<and>
   float_bounds example_env \<and>
   (\<exists>fa fb. AlgorithmA_process example_env audio_1 world_0 = (Inr fa, world_0\<lparr>draws := Suc (draws world_0)\<rparr>) \<and>
      fa ''feature_type'' = Some (PStr ''A'') \<and>
      fa ''source_message_id'' = Some (PStr ''audio-1'') \<and>
      AlgorithmB_process example_env fa (world_0\<lparr>draws := Suc (draws world_0)\<rparr>)
        = (Inr fb, world_0\<lparr>draws := Suc (draws world_0)\<rparr>\<lparr>draws := Suc (draws (world_0\<lparr>draws := Suc (draws world_0)\<rparr>))\<rparr>) \<and>
      fb ''feature_type'' = Some (PStr ''B'') \<and>
      fb ''sensor_id'' = Some (PStr ''sensor-01'') \<and>
      fb ''timestamp'' = Some (PStr ''2024-01-15T10:00:00+00:00''))"
proof -
  have h2: "audio_1 ''audio_data'' = Some (PStr ''dGVzdGF1ZGlvZGF0YQ=='')"
    by (simp add: audio_1_def)
  have ids: "audio_1 ''message_id'' = Some (PStr ''audio-1'')"
    "audio_1 ''sensor_id'' = Some (PStr ''sensor-01'')"
    "audio_1 ''timestamp'' = Some (PStr ''2024-01-15T10:00:00+00:00'')"
    by (simp_all add: audio_1_def)
  from lineage_propagation[OF example_audio_1_valid h2 example_audio_1_decodes float_bounds_example,
      of world_0 "world_0\<lparr>draws := Suc (draws world_0)\<rparr>"]
  obtain fa fb where fa: "AlgorithmA_process example_env audio_1 world_0 = (Inr fa, world_0\<lparr>draws := Suc (draws world_0)\<rparr>)"
      "fa ''feature_type'' = Some (PStr ''A'')"
      "fa ''source_message_id'' = audio_1 ''message_id''"
      "AlgorithmB_process example_env fa (world_0\<lparr>draws := Suc (draws world_0)\<rparr>)
         = (Inr fb, world_0\<lparr>draws := Suc (draws world_0)\<rparr>\<lparr>draws := Suc (draws (world_0\<lparr>draws := Suc (draws world_0)\<rparr>))\<rparr>)"
      "fb ''feature_type'' = Some (PStr ''B'')"
      "fb ''sensor_id'' = audio_1 ''sensor_id''"
      "fb ''timestamp'' = audio_1 ''timestamp''"
    by blast
  have "\<exists>fa fb. AlgorithmA_process example_env audio_1 world_0 = (Inr fa, world_0\<lparr>draws := Suc (draws world_0)\<rparr>) \<and>
      fa ''feature_type'' = Some (PStr ''A'') \<and>
      fa ''source_message_id'' = Some (PStr ''audio-1'') \<and>
      AlgorithmB_process example_env fa (world_0\<lparr>draws := Suc (draws world_0)\<rparr>)
        = (Inr fb, world_0\<lparr>draws := Suc (draws world_0)\<rparr>\<lparr>draws := Suc (draws (world_0\<lparr>draws := Suc (draws world_0)\<rparr>))\<rparr>) \<and>
      fb ''feature_type'' = Some (PStr ''B'') \<and>
      fb ''sensor_id'' = Some (PStr ''sensor-01'') \<and>
      fb ''timestamp'' = Some (PStr ''2024-01-15T10:00:00+00:00'')"
    using fa ids by (intro exI[of _ fa] exI[of _ fb]) simp
  then show ?thesis
    using example_audio_1_valid h2 example_audio_1_decodes float_bounds_example by blast
qed

text \<open>
  C9. Run a stage's \<^verbatim>\<open>process\<close> on the same message in two states, that is with different
  draws of the identifier and the clock. Both runs raise the same exception or both return;
  two returned records agree on every field but \<^verbatim>\<open>message_id\<close> and \<^verbatim>\<open>processed_at\<close>, and
  in particular on \<^verbatim>\<open>features\<close>.
\<close>

theorem process_deterministic:
  "(fst (AlgorithmA_process E m w) = Inl e \<longleftrightarrow> fst (AlgorithmA_process E m w') = Inl e) \<and>
   (fst (AlgorithmA_process E m w) = Inr r \<longrightarrow>
      (\<exists>r'. fst (AlgorithmA_process E m w') = Inr r' \<and>
            (\<forall>k. k \<noteq> ''message_id'' \<longrightarrow> k \<noteq> ''processed_at'' \<longrightarrow> r k = r' k) \<and>
            r ''features'' = r' ''features'')) \<and>
   (fst (AlgorithmB_process E m w) = Inl e \<longleftrightarrow> fst (AlgorithmB_process E m w') = Inl e) \<and>
   (fst (AlgorithmB_process E m w) = Inr r \<longrightarrow>
      (\<exists>r'. fst (AlgorithmB_process E m w') = Inr r' \<and>
            (\<forall>k. k \<noteq> ''message_id'' \<longrightarrow> k \<noteq> ''processed_at'' \<longrightarrow> r k = r' k) \<and>
            r ''features'' = r' ''features''))"
proof -
  have ea: "fst (AlgorithmA_process E m w) = Inl e \<longleftrightarrow> fst (AlgorithmA_process E m w') = Inl e"
    by (simp add: AlgorithmA_error_iff)
  have eb: "fst (AlgorithmB_process E m w) = Inl e \<longleftrightarrow> fst (AlgorithmB_process E m w') = Inl e"
    by (simp add: AlgorithmB_error_iff)
  have ra: "\<exists>r'. fst (AlgorithmA_process E m w') = Inr r' \<and>
            (\<forall>k. k \<noteq> ''message_id'' \<longrightarrow> k \<noteq> ''processed_at'' \<longrightarrow> r k = r' k) \<and>
            r ''features'' = r' ''features''"
    if asm: "fst (AlgorithmA_process E m w) = Inr r"
  proof -
    have v: "AlgorithmA_validate E m = None"
      using asm by (cases "AlgorithmA_validate E m") (simp_all add: AlgorithmA_process_result)
    obtain f where f2: "extract_features E (the (m ''audio_data'')) = Inr f"
      using asm v
      by (cases "extract_features E (the (m ''audio_data''))") (simp_all add: AlgorithmA_process_result)
    have f3: "r = feature_a_record E m (draws w) f"
      using asm v f2 by (simp add: AlgorithmA_process_result)
    note f = v f2 f3
    have "fst (AlgorithmA_process E m w') = Inr (feature_a_record E m (draws w') f)"
      using f(1,2) by (simp add: AlgorithmA_process_result)
    then show ?thesis
      using f(3) feature_a_record_draw[of _ E m "draws w" f "draws w'"]
      by (auto simp: feature_a_record_fields)
  qed
  have rb: "\<exists>r'. fst (AlgorithmB_process E m w') = Inr r' \<and>
            (\<forall>k. k \<noteq> ''message_id'' \<longrightarrow> k \<noteq> ''processed_at'' \<longrightarrow> r k = r' k) \<and>
            r ''features'' = r' ''features''"
    if asm: "fst (AlgorithmB_process E m w) = Inr r"
  proof -
    have v: "AlgorithmB_validate m = None"
      using asm by (cases "AlgorithmB_validate m") (simp_all add: AlgorithmB_process_result)
    obtain f where f2: "derive_features E m = Inr f"
      using asm v
      by (cases "derive_features E m") (simp_all add: AlgorithmB_process_result)
    have f3: "r = feature_b_record E m (draws w) f"
      using asm v f2 by (simp add: AlgorithmB_process_result)
    note f = v f2 f3
    have "fst (AlgorithmB_process E m w') = Inr (feature_b_record E m (draws w') f)"
      using f(1,2) by (simp add: AlgorithmB_process_result)
    then show ?thesis
      using f(3) feature_b_record_draw[of _ E m "draws w" f "draws w'"]
      by (auto simp: feature_b_record_fields)
  qed
  show ?thesis
    using ea eb ra rb by blast
qed

theorem process_deterministic_witness:
  "fst (AlgorithmA_process example_env audio_1 world_0)
     = Inr (feature_a_record example_env audio_1 0 (features_of_seed example_env 388)) \<and>
   (\<exists>r'. fst (AlgorithmA_process example_env audio_1 (world_0\<lparr>draws := 5\<rparr>)) = Inr r' \<and>
      r' ''features'' = Some (features_of_seed example_env 388) \<and>
      r' ''sensor_id'' = Some (PStr ''sensor-01''))"
proof -
  have p0: "fst (AlgorithmA_process example_env audio_1 world_0)
     = Inr (feature_a_record example_env audio_1 0 (features_of_seed example_env 388))"
    by (simp add: example_process_audio_1 world_0_def)
  have sid: "audio_1 ''sensor_id'' = Some (PStr ''sensor-01'')"
    by (simp add: audio_1_def)
  from process_deterministic[where E = example_env and m = audio_1 and w = world_0 and w' = "world_0\<lparr>draws := 5\<rparr>"
      and r = "feature_a_record example_env audio_1 0 (features_of_seed example_env 388)"] p0
  obtain r' where r': "fst (AlgorithmA_process example_env audio_1 (world_0\<lparr>draws := 5\<rparr>)) = Inr r'"
      "\<forall>k. k \<noteq> ''message_id'' \<longrightarrow> k \<noteq> ''processed_at'' \<longrightarrow>
           feature_a_record example_env audio_1 0 (features_of_seed example_env 388) k = r' k"
      "feature_a_record example_env audio_1 0 (features_of_seed example_env 388) ''features'' = r' ''features''"
    by blast
  have "feature_a_record example_env audio_1 0 (features_of_seed example_env 388) ''sensor_id''
          = r' ''sensor_id''"
    using r'(2) by simp
  then have "r' ''sensor_id'' = Some (PStr ''sensor-01'')"
    using sid by (simp add: feature_a_record_fields)
  moreover have "r' ''features'' = Some (features_of_seed example_env 388)"
    using r'(3) by (simp add: feature_a_record_fields)
  ultimately show ?thesis
    using p0 r'(1) by blast
qed

subsection \<open>Draining the input: \<^verbatim>\<open>process_all\<close>\<close>

lemma AlgorithmA_process_cases:
  "(\<exists>e. AlgorithmA_error E m = Some e \<and> fst (AlgorithmA_process E m w) = Inl e) \<or>
   (\<exists>fa. AlgorithmA_error E m = None \<and> fst (AlgorithmA_process E m w) = Inr fa)"
proof (cases "fst (AlgorithmA_process E m w)")
  case (Inl e)
  then show ?thesis
    using AlgorithmA_error_iff[of E m w e] by simp
next
  case (Inr fa)
  have "AlgorithmA_error E m = None"
  proof (cases "AlgorithmA_error E m")
    case (Some e)
    then show ?thesis
      using AlgorithmA_error_iff[of E m w e] Inr by simp
  qed simp
  then show ?thesis
    using Inr by simp
qed

lemma AlgorithmA_process_one_empty:
  assumes "queue_items (bro w) AUDIO_STREAM = []"
  shows "\<exists>w'. AlgorithmA_process_one E self w = (Inr None, self, w') \<and>
              queue_items (bro w') AUDIO_STREAM = []"
proof -
  obtain x b1 where c: "consume_work (bro w) AUDIO_STREAM 0 = (x, b1)"
    by (cases "consume_work (bro w) AUDIO_STREAM 0")
  have x: "x = None"
    using consume_work_result[of "bro w" AUDIO_STREAM 0] c assms by simp
  have i: "queue_items b1 AUDIO_STREAM = []"
    using consume_work_items[of "bro w" AUDIO_STREAM 0 AUDIO_STREAM] c assms by simp
  show ?thesis
    using c x i by (simp add: AlgorithmA_process_one_def)
qed

lemma AlgorithmA_process_one_error:
  assumes "queue_items (bro w) AUDIO_STREAM = m # ms" and "AlgorithmA_error E m = Some e"
  shows "\<exists>w'. AlgorithmA_process_one E self w = (Inl e, self, w') \<and>
              queue_items (bro w') AUDIO_STREAM = ms"
proof -
  obtain x b1 where c: "consume_work (bro w) AUDIO_STREAM 0 = (x, b1)"
    by (cases "consume_work (bro w) AUDIO_STREAM 0")
  have x: "x = Some m"
    using consume_work_result[of "bro w" AUDIO_STREAM 0] c assms(1) by simp
  have i: "queue_items b1 AUDIO_STREAM = ms"
    using consume_work_items[of "bro w" AUDIO_STREAM 0 AUDIO_STREAM] c assms(1) by simp
  obtain y w2 where p: "AlgorithmA_process E m (w\<lparr>bro := b1\<rparr>) = (y, w2)"
    by (cases "AlgorithmA_process E m (w\<lparr>bro := b1\<rparr>)")
  have y: "y = Inl e"
    using AlgorithmA_error_iff[of E m "w\<lparr>bro := b1\<rparr>" e] assms(2) p by simp
  have f: "bro w2 = b1"
    using AlgorithmA_process_frame[of E m "w\<lparr>bro := b1\<rparr>"] p by simp
  show ?thesis
    using c x p y f i by (simp add: AlgorithmA_process_one_def)
qed

lemma AlgorithmA_process_one_ok:
  assumes "queue_items (bro w) AUDIO_STREAM = m # ms" and "AlgorithmA_error E m = None"
  shows "\<exists>fa w'. AlgorithmA_process_one E self w =
                   (Inr (Some fa), self\<lparr>a_processed_count := a_processed_count self + 1\<rparr>, w') \<and>
                 queue_items (bro w') AUDIO_STREAM = ms"
proof -
  obtain x b1 where c: "consume_work (bro w) AUDIO_STREAM 0 = (x, b1)"
    by (cases "consume_work (bro w) AUDIO_STREAM 0")
  have x: "x = Some m"
    using consume_work_result[of "bro w" AUDIO_STREAM 0] c assms(1) by simp
  have i: "queue_items b1 AUDIO_STREAM = ms"
    using consume_work_items[of "bro w" AUDIO_STREAM 0 AUDIO_STREAM] c assms(1) by simp
  obtain y w2 where p: "AlgorithmA_process E m (w\<lparr>bro := b1\<rparr>) = (y, w2)"
    by (cases "AlgorithmA_process E m (w\<lparr>bro := b1\<rparr>)")
  obtain fa where y: "y = Inr fa"
    using AlgorithmA_process_cases[of E m "w\<lparr>bro := b1\<rparr>"] assms(2) p by auto
  have f: "bro w2 = b1"
    using AlgorithmA_process_frame[of E m "w\<lparr>bro := b1\<rparr>"] p by simp
  have q: "queue_items (publish_fanout b1 FEATURES_A fa) AUDIO_STREAM = ms"
    using i by (simp add: queue_items_def publish_fanout_def)
  show ?thesis
    using c x p y f q by (simp add: AlgorithmA_process_one_def)
qed

lemma AlgorithmA_loop_drains:
  "queue_items (bro w) AUDIO_STREAM = ms \<Longrightarrow> \<forall>m \<in> set ms. AlgorithmA_error E m = None \<Longrightarrow>
   \<exists>w'. AlgorithmA_process_all_loop E self w cnt =
           (Inr (cnt + length ms), self\<lparr>a_processed_count := a_processed_count self + length ms\<rparr>, w') \<and>
         queue_items (bro w') AUDIO_STREAM = []"
proof (induction ms arbitrary: self w cnt)
  case Nil
  obtain w' where "AlgorithmA_process_one E self w = (Inr None, self, w')"
      "queue_items (bro w') AUDIO_STREAM = []"
    using AlgorithmA_process_one_empty[OF Nil.prems(1), of E self] by blast
  then show ?case
    by (subst AlgorithmA_process_all_loop.simps) simp
next
  case (Cons m ms)
  have ok: "AlgorithmA_error E m = None"
    using Cons.prems(2) by simp
  obtain fa w1 where one: "AlgorithmA_process_one E self w =
        (Inr (Some fa), self\<lparr>a_processed_count := a_processed_count self + 1\<rparr>, w1)"
      and q1: "queue_items (bro w1) AUDIO_STREAM = ms"
    using AlgorithmA_process_one_ok[OF Cons.prems(1) ok, of self] by blast
  have rest: "\<forall>m \<in> set ms. AlgorithmA_error E m = None"
    using Cons.prems(2) by simp
  obtain w' where "AlgorithmA_process_all_loop E (self\<lparr>a_processed_count := a_processed_count self + 1\<rparr>) w1 (cnt + 1) =
           (Inr (cnt + 1 + length ms),
            self\<lparr>a_processed_count := a_processed_count self + 1\<rparr>
              \<lparr>a_processed_count := a_processed_count (self\<lparr>a_processed_count := a_processed_count self + 1\<rparr>) + length ms\<rparr>, w')"
      "queue_items (bro w') AUDIO_STREAM = []"
    using Cons.IH[OF q1 rest, of "self\<lparr>a_processed_count := a_processed_count self + 1\<rparr>" "cnt + 1"] by blast
  then show ?case
    using one by (subst AlgorithmA_process_all_loop.simps) simp
qed

lemma AlgorithmA_loop_stops:
  "queue_items (bro w) AUDIO_STREAM = pre @ bad # rest \<Longrightarrow>
   \<forall>m \<in> set pre. AlgorithmA_error E m = None \<Longrightarrow> AlgorithmA_error E bad = Some e \<Longrightarrow>
   \<exists>w'. AlgorithmA_process_all_loop E self w cnt =
           (Inl e, self\<lparr>a_processed_count := a_processed_count self + length pre\<rparr>, w') \<and>
         queue_items (bro w') AUDIO_STREAM = rest"
proof (induction pre arbitrary: self w cnt)
  case Nil
  obtain w' where "AlgorithmA_process_one E self w = (Inl e, self, w')"
      "queue_items (bro w') AUDIO_STREAM = rest"
    using AlgorithmA_process_one_error[of w bad rest E e self] Nil.prems by auto
  then show ?case
    by (subst AlgorithmA_process_all_loop.simps) simp
next
  case (Cons m pre)
  have ok: "AlgorithmA_error E m = None"
    using Cons.prems(2) by simp
  obtain fa w1 where one: "AlgorithmA_process_one E self w =
        (Inr (Some fa), self\<lparr>a_processed_count := a_processed_count self + 1\<rparr>, w1)"
      and q1: "queue_items (bro w1) AUDIO_STREAM = pre @ bad # rest"
    using AlgorithmA_process_one_ok[of w m "pre @ bad # rest" E self] Cons.prems(1) ok by auto
  have rest: "\<forall>m \<in> set pre. AlgorithmA_error E m = None"
    using Cons.prems(2) by simp
  obtain w' where "AlgorithmA_process_all_loop E (self\<lparr>a_processed_count := a_processed_count self + 1\<rparr>) w1 (cnt + 1) =
           (Inl e,
            self\<lparr>a_processed_count := a_processed_count self + 1\<rparr>
              \<lparr>a_processed_count := a_processed_count (self\<lparr>a_processed_count := a_processed_count self + 1\<rparr>) + length pre\<rparr>, w')"
      "queue_items (bro w') AUDIO_STREAM = rest"
    using Cons.IH[OF q1 rest Cons.prems(3), of "self\<lparr>a_processed_count := a_processed_count self + 1\<rparr>" "cnt + 1"] by blast
  then show ?case
    using one by (subst AlgorithmA_process_all_loop.simps) simp
qed

lemma AlgorithmB_process_cases:
  "(\<exists>e. AlgorithmB_error E m = Some e \<and> fst (AlgorithmB_process E m w) = Inl e) \<or>
   (\<exists>fb. AlgorithmB_error E m = None \<and> fst (AlgorithmB_process E m w) = Inr fb)"
proof (cases "fst (AlgorithmB_process E m w)")
  case (Inl e)
  then show ?thesis
    using AlgorithmB_error_iff[of E m w e] by simp
next
  case (Inr fb)
  have "AlgorithmB_error E m = None"
  proof (cases "AlgorithmB_error E m")
    case (Some e)
    then show ?thesis
      using AlgorithmB_error_iff[of E m w e] Inr by simp
  qed simp
  then show ?thesis
    using Inr by simp
qed

lemma AlgorithmB_process_one_empty:
  assumes "inboxes (bro w) (b_inbox self) = []"
  shows "AlgorithmB_process_one E self w = (Inr None, self, w)"
  using assms by (simp add: AlgorithmB_process_one_def get_nowait_def)

lemma AlgorithmB_process_one_error:
  assumes "inboxes (bro w) (b_inbox self) = m # ms" and "AlgorithmB_error E m = Some e"
  shows "\<exists>w'. AlgorithmB_process_one E self w = (Inl e, self, w') \<and>
              inboxes (bro w') (b_inbox self) = ms \<and>
              subscribers (bro w') FEATURES_B = subscribers (bro w) FEATURES_B"
proof -
  let ?b1 = "(bro w)\<lparr>inboxes := (inboxes (bro w))(b_inbox self := ms)\<rparr>"
  have g: "get_nowait (bro w) (b_inbox self) = (Some m, ?b1)"
    using assms(1) by (simp add: get_nowait_def)
  obtain y w2 where p: "AlgorithmB_process E m (w\<lparr>bro := ?b1\<rparr>) = (y, w2)"
    by (cases "AlgorithmB_process E m (w\<lparr>bro := ?b1\<rparr>)")
  have y: "y = Inl e"
    using AlgorithmB_error_iff[of E m "w\<lparr>bro := ?b1\<rparr>" e] assms(2) p by simp
  have f: "bro w2 = ?b1"
    using AlgorithmB_process_frame[of E m "w\<lparr>bro := ?b1\<rparr>"] p by simp
  show ?thesis
    using g p y f by (simp add: AlgorithmB_process_one_def subscribers_def)
qed

lemma AlgorithmB_process_one_ok:
  assumes "inboxes (bro w) (b_inbox self) = m # ms" and "AlgorithmB_error E m = None"
    and "b_inbox self \<notin> set (subscribers (bro w) FEATURES_B)"
  shows "\<exists>fb w'. AlgorithmB_process_one E self w =
                   (Inr (Some fb), self\<lparr>b_processed_count := b_processed_count self + 1\<rparr>, w') \<and>
                 inboxes (bro w') (b_inbox self) = ms \<and>
                 subscribers (bro w') FEATURES_B = subscribers (bro w) FEATURES_B"
proof -
  let ?b1 = "(bro w)\<lparr>inboxes := (inboxes (bro w))(b_inbox self := ms)\<rparr>"
  have g: "get_nowait (bro w) (b_inbox self) = (Some m, ?b1)"
    using assms(1) by (simp add: get_nowait_def)
  obtain y w2 where p: "AlgorithmB_process E m (w\<lparr>bro := ?b1\<rparr>) = (y, w2)"
    by (cases "AlgorithmB_process E m (w\<lparr>bro := ?b1\<rparr>)")
  obtain fb where y: "y = Inr fb"
    using AlgorithmB_process_cases[of E m "w\<lparr>bro := ?b1\<rparr>"] assms(2) p by auto
  have f: "bro w2 = ?b1"
    using AlgorithmB_process_frame[of E m "w\<lparr>bro := ?b1\<rparr>"] p by simp
  have s1: "subscribers ?b1 FEATURES_B = subscribers (bro w) FEATURES_B"
    by (simp add: subscribers_def)
  have c0: "count_list (subscribers ?b1 FEATURES_B) (b_inbox self) = 0"
    using assms(3) s1 by (simp add: count_list_0_iff)
  have q: "inboxes (publish_fanout ?b1 FEATURES_B fb) (b_inbox self) = ms"
    using inboxes_publish_fanout[of ?b1 FEATURES_B fb "b_inbox self"] c0 by simp
  show ?thesis
    using g p y f q s1 by (simp add: AlgorithmB_process_one_def)
qed

lemma AlgorithmB_loop_drains:
  "inboxes (bro w) (b_inbox self) = ms \<Longrightarrow> \<forall>m \<in> set ms. AlgorithmB_error E m = None \<Longrightarrow>
   b_inbox self \<notin> set (subscribers (bro w) FEATURES_B) \<Longrightarrow>
   \<exists>w'. AlgorithmB_process_all_loop E self w cnt =
           Some (Inr (cnt + length ms),
                 self\<lparr>b_processed_count := b_processed_count self + length ms\<rparr>, w') \<and>
         inboxes (bro w') (b_inbox self) = []"
proof (induction ms arbitrary: self w cnt)
  case Nil
  show ?case
    using AlgorithmB_process_one_empty[OF Nil.prems(1), of E] Nil.prems(1)
    by (subst AlgorithmB_process_all_loop.simps) simp
next
  case (Cons m ms)
  let ?self1 = "self\<lparr>b_processed_count := b_processed_count self + 1\<rparr>"
  have ok: "AlgorithmB_error E m = None"
    using Cons.prems(2) by simp
  obtain fb w1 where one: "AlgorithmB_process_one E self w = (Inr (Some fb), ?self1, w1)"
      and q1: "inboxes (bro w1) (b_inbox self) = ms"
      and s1: "subscribers (bro w1) FEATURES_B = subscribers (bro w) FEATURES_B"
    using AlgorithmB_process_one_ok[OF Cons.prems(1) ok Cons.prems(3), of ] by blast
  have rest: "\<forall>m \<in> set ms. AlgorithmB_error E m = None"
    using Cons.prems(2) by simp
  have q1': "inboxes (bro w1) (b_inbox ?self1) = ms"
    using q1 by simp
  have n1: "b_inbox ?self1 \<notin> set (subscribers (bro w1) FEATURES_B)"
    using Cons.prems(3) s1 by simp
  obtain w' where "AlgorithmB_process_all_loop E ?self1 w1 (cnt + 1) =
           Some (Inr (cnt + 1 + length ms),
                 ?self1\<lparr>b_processed_count := b_processed_count ?self1 + length ms\<rparr>, w')"
      "inboxes (bro w') (b_inbox ?self1) = []"
    using Cons.IH[OF q1' rest n1, of "cnt + 1"] by blast
  then show ?case
    using one by (subst AlgorithmB_process_all_loop.simps) simp
qed

lemma AlgorithmB_loop_stops:
  "inboxes (bro w) (b_inbox self) = pre @ bad # rest \<Longrightarrow>
   \<forall>m \<in> set pre. AlgorithmB_error E m = None \<Longrightarrow> AlgorithmB_error E bad = Some e \<Longrightarrow>
   b_inbox self \<notin> set (subscribers (bro w) FEATURES_B) \<Longrightarrow>
   \<exists>w'. AlgorithmB_process_all_loop E self w cnt =
           Some (Inl e, self\<lparr>b_processed_count := b_processed_count self + length pre\<rparr>, w') \<and>
         inboxes (bro w') (b_inbox self) = rest \<and>
         subscribers (bro w') FEATURES_B = subscribers (bro w) FEATURES_B"
proof (induction pre arbitrary: self w cnt)
  case Nil
  obtain w' where "AlgorithmB_process_one E self w = (Inl e, self, w')"
      "inboxes (bro w') (b_inbox self) = rest"
      "subscribers (bro w') FEATURES_B = subscribers (bro w) FEATURES_B"
    using AlgorithmB_process_one_error[of w self bad rest E e] Nil.prems by auto
  then show ?case
    by (subst AlgorithmB_process_all_loop.simps) simp
next
  case (Cons m pre)
  let ?self1 = "self\<lparr>b_processed_count := b_processed_count self + 1\<rparr>"
  have ok: "AlgorithmB_error E m = None"
    using Cons.prems(2) by simp
  obtain fb w1 where one: "AlgorithmB_process_one E self w = (Inr (Some fb), ?self1, w1)"
      and q1: "inboxes (bro w1) (b_inbox self) = pre @ bad # rest"
      and s1: "subscribers (bro w1) FEATURES_B = subscribers (bro w) FEATURES_B"
    using AlgorithmB_process_one_ok[of w self m "pre @ bad # rest" E] Cons.prems(1,4) ok by auto
  have rest: "\<forall>m \<in> set pre. AlgorithmB_error E m = None"
    using Cons.prems(2) by simp
  have q1': "inboxes (bro w1) (b_inbox ?self1) = pre @ bad # rest"
    using q1 by simp
  have n1: "b_inbox ?self1 \<notin> set (subscribers (bro w1) FEATURES_B)"
    using Cons.prems(4) s1 by simp
  obtain w' where "AlgorithmB_process_all_loop E ?self1 w1 (cnt + 1) =
           Some (Inl e, ?self1\<lparr>b_processed_count := b_processed_count ?self1 + length pre\<rparr>, w')"
      "inboxes (bro w') (b_inbox ?self1) = rest"
      "subscribers (bro w') FEATURES_B = subscribers (bro w1) FEATURES_B"
    using Cons.IH[OF q1' rest Cons.prems(3) n1, of "cnt + 1"] by blast
  then show ?case
    using one s1 by (subst AlgorithmB_process_all_loop.simps) simp
qed

lemma example_audio_2_ok: "AlgorithmA_error example_env audio_2 = None"
proof -
  have v: "AlgorithmA_validate example_env audio_2 = None"
    by (simp add: AlgorithmA_validate_eq REQUIRED_FIELDS_A_def audio_2_def timestamp_parses_def
        example_env_def replace_Z_def)
  have x: "extract_features example_env (the (audio_2 ''audio_data'')) = Inr (features_of_seed example_env 388)"
    by (simp add: extract_features_def audio_2_def example_env_def)
  show ?thesis
    using v x by (simp add: AlgorithmA_error_def AlgorithmA_process_result)
qed

lemma example_audio_1_ok: "AlgorithmA_error example_env audio_1 = None"
  using example_audio_1_valid example_audio_1_features
  by (simp add: AlgorithmA_error_def AlgorithmA_process_result)

lemma example_bad_audio_error: "AlgorithmA_error example_env bad_audio = Some ValueError"
proof -
  have "AlgorithmA_validate example_env bad_audio = Some ValueError"
    by (simp add: AlgorithmA_validate_eq REQUIRED_FIELDS_A_def bad_audio_def)
  then show ?thesis
    by (simp add: AlgorithmA_error_def AlgorithmA_process_result)
qed

lemma example_feature_a_ok:
  "AlgorithmB_error example_env feature_a_1 = None" "AlgorithmB_error example_env feature_a_2 = None"
proof -
  have v: "AlgorithmB_validate feature_a_1 = None" "AlgorithmB_validate feature_a_2 = None"
    by (simp_all add: AlgorithmB_validate_eq REQUIRED_FIELDS_B_def feature_a_1_def feature_a_2_def)
  have d: "derive_features example_env feature_a_1 = Inr (derived_payload example_env 0 440 (1 / 10))"
    "derive_features example_env feature_a_2 = Inr (derived_payload example_env 0 440 (1 / 10))"
    by (simp_all add: derive_features_def derive_arithmetic_def mfcc_mean_def dict_get_def
        feature_a_1_def feature_a_2_def example_env_def)
  show "AlgorithmB_error example_env feature_a_1 = None" "AlgorithmB_error example_env feature_a_2 = None"
    using v d by (simp_all add: AlgorithmB_error_def AlgorithmB_process_result)
qed

lemma example_wrong_type_error: "AlgorithmB_error example_env wrong_type_record = Some TypeError"
proof -
  have "AlgorithmB_validate wrong_type_record = Some TypeError"
    by (simp add: AlgorithmB_validate_eq REQUIRED_FIELDS_B_def wrong_type_record_def feature_a_1_def)
  then show ?thesis
    by (simp add: AlgorithmB_error_def AlgorithmB_process_result)
qed

lemma example_world_bad_first:
  "queue_items (bro world_bad_first) AUDIO_STREAM = [] @ bad_audio # [audio_1, audio_2]"
  by (simp add: world_bad_first_def queue_items_publish_many)
     (simp add: queue_items_def InMemoryBroker_def)

lemma example_world_bad_second:
  "queue_items (bro world_bad_second) AUDIO_STREAM = [audio_1] @ [bad_audio, audio_2]"
  by (simp add: world_bad_second_def queue_items_publish_many)
     (simp add: queue_items_def InMemoryBroker_def)

lemma example_world_b:
  "inboxes (bro world_b) (b_inbox stage_b) = [feature_a_1] @ [wrong_type_record, feature_a_2]"
  "b_inbox stage_b \<notin> set (subscribers (bro world_b) FEATURES_B)"
  by (simp_all add: world_b_def stage_b_def AlgorithmB_init_def world_0_def InMemoryBroker_def
      subscribe_fanout_def Let_def publish_fanout_def put_nowait_def subscribers_def
      FEATURES_A_def FEATURES_B_def)

text \<open>
  C2, as claimed, fails: \<^verbatim>\<open>process_all\<close> has no handler, so the exception of the first
  message that \<^verbatim>\<open>process\<close> rejects leaves the loop. With one malformed audio message ahead
  of two valid ones, \<^verbatim>\<open>process_all\<close> raises \<^verbatim>\<open>ValueError\<close> and the two valid messages
  are still on the queue.
\<close>

theorem process_all_stops_at_invalid_message:
  "fst (AlgorithmA_process_all example_env AlgorithmA_init world_bad_first) = Inl ValueError \<and>
   work_queue_depth (bro (snd (snd (AlgorithmA_process_all example_env AlgorithmA_init world_bad_first))))
     AUDIO_STREAM = 2 \<and>
   AlgorithmA_error example_env audio_1 = None \<and> AlgorithmA_error example_env audio_2 = None"
proof -
  obtain w' where "AlgorithmA_process_all_loop example_env AlgorithmA_init world_bad_first 0 =
           (Inl ValueError, AlgorithmA_init\<lparr>a_processed_count := a_processed_count AlgorithmA_init + length ([]::msg list)\<rparr>, w')"
      "queue_items (bro w') AUDIO_STREAM = [audio_1, audio_2]"
    using AlgorithmA_loop_stops[OF example_world_bad_first _ example_bad_audio_error, of AlgorithmA_init 0]
    by auto
  then show ?thesis
    using example_audio_1_ok example_audio_2_ok
    by (simp add: AlgorithmA_process_all_def work_queue_depth_items)
qed

text \<open>
  C2, amended. Let the source of a stage (the audio queue for Algorithm A, its inbox for
  Algorithm B, which is not itself subscribed to \<^verbatim>\<open>features_b\<close>) hold the messages \<open>pre\<close>
  that \<^verbatim>\<open>process\<close> accepts, followed by \<open>rest\<close>. If \<open>rest\<close> is empty, \<^verbatim>\<open>process_all\<close>
  returns the number of messages, has counted them, and leaves the source empty. If \<open>rest\<close>
  starts with a message on which \<^verbatim>\<open>process\<close> raises \<open>e\<close>, \<^verbatim>\<open>process_all\<close> raises \<open>e\<close>
  after the messages of \<open>pre\<close> have been processed and counted; the failing message is
  consumed and those after it stay in the source, and a further \<^verbatim>\<open>process_all\<close> on the same
  stage instance processes them: when they are all accepted it returns their number and
  leaves the source empty. Algorithm B's loop returns in all these cases.
\<close>

theorem process_all_drains_until_failure:
  assumes "queue_items (bro w) AUDIO_STREAM = pre @ rest"
    and "\<forall>m \<in> set pre. AlgorithmA_error E m = None"
    and "inboxes (bro v) (b_inbox selfb) = preb @ restb"
    and "\<forall>m \<in> set preb. AlgorithmB_error E m = None"
    and "b_inbox selfb \<notin> set (subscribers (bro v) FEATURES_B)"
  shows "(rest = [] \<longrightarrow>
            (\<exists>w'. AlgorithmA_process_all E self w =
                     (Inr (length pre),
                      self\<lparr>a_processed_count := a_processed_count self + length pre\<rparr>, w') \<and>
                   work_queue_depth (bro w') AUDIO_STREAM = 0)) \<and>
         (\<forall>bad tl e. rest = bad # tl \<longrightarrow> AlgorithmA_error E bad = Some e \<longrightarrow>
            (\<exists>self' w'. AlgorithmA_process_all E self w = (Inl e, self', w') \<and>
               a_processed_count self' = a_processed_count self + length pre \<and>
               queue_items (bro w') AUDIO_STREAM = tl \<and>
               ((\<forall>m \<in> set tl. AlgorithmA_error E m = None) \<longrightarrow>
                  (\<exists>w''. AlgorithmA_process_all E self' w' =
                      (Inr (length tl),
                       self'\<lparr>a_processed_count := a_processed_count self' + length tl\<rparr>, w'') \<and>
                     work_queue_depth (bro w'') AUDIO_STREAM = 0)))) \<and>
         (restb = [] \<longrightarrow>
            (\<exists>v'. AlgorithmB_process_all E selfb v =
                     Some (Inr (length preb),
                           selfb\<lparr>b_processed_count := b_processed_count selfb + length preb\<rparr>, v') \<and>
                   inboxes (bro v') (b_inbox selfb) = [])) \<and>
         (\<forall>bad tl e. restb = bad # tl \<longrightarrow> AlgorithmB_error E bad = Some e \<longrightarrow>
            (\<exists>selfb' v'. AlgorithmB_process_all E selfb v = Some (Inl e, selfb', v') \<and>
               b_inbox selfb' = b_inbox selfb \<and>
               b_processed_count selfb' = b_processed_count selfb + length preb \<and>
               inboxes (bro v') (b_inbox selfb) = tl \<and>
               ((\<forall>m \<in> set tl. AlgorithmB_error E m = None) \<longrightarrow>
                  (\<exists>v''. AlgorithmB_process_all E selfb' v' =
                      Some (Inr (length tl),
                            selfb'\<lparr>b_processed_count := b_processed_count selfb' + length tl\<rparr>, v'') \<and>
                     inboxes (bro v'') (b_inbox selfb) = []))))"
proof (intro conjI allI impI)
  assume r: "rest = []"
  show "\<exists>w'. AlgorithmA_process_all E self w =
                     (Inr (length pre),
                      self\<lparr>a_processed_count := a_processed_count self + length pre\<rparr>, w') \<and>
                   work_queue_depth (bro w') AUDIO_STREAM = 0"
    using AlgorithmA_loop_drains[of w pre E self 0] assms(1,2) r
    by (simp add: AlgorithmA_process_all_def work_queue_depth_items)
next
  fix bad tl e
  assume r: "rest = bad # tl" and e: "AlgorithmA_error E bad = Some e"
  let ?self' = "self\<lparr>a_processed_count := a_processed_count self + length pre\<rparr>"
  obtain w' where stop: "AlgorithmA_process_all E self w = (Inl e, ?self', w')"
      and q: "queue_items (bro w') AUDIO_STREAM = tl"
    using AlgorithmA_loop_stops[of w pre bad tl E e self 0] assms(1,2) r e
    by (auto simp: AlgorithmA_process_all_def)
  have again: "\<exists>w''. AlgorithmA_process_all E ?self' w' =
                      (Inr (length tl),
                       ?self'\<lparr>a_processed_count := a_processed_count ?self' + length tl\<rparr>, w'') \<and>
                     work_queue_depth (bro w'') AUDIO_STREAM = 0"
    if "\<forall>m \<in> set tl. AlgorithmA_error E m = None"
    using AlgorithmA_loop_drains[of w' tl E ?self' 0] q that
    by (simp add: AlgorithmA_process_all_def work_queue_depth_items)
  show "\<exists>self' w'. AlgorithmA_process_all E self w = (Inl e, self', w') \<and>
               a_processed_count self' = a_processed_count self + length pre \<and>
               queue_items (bro w') AUDIO_STREAM = tl \<and>
               ((\<forall>m \<in> set tl. AlgorithmA_error E m = None) \<longrightarrow>
                  (\<exists>w''. AlgorithmA_process_all E self' w' =
                      (Inr (length tl),
                       self'\<lparr>a_processed_count := a_processed_count self' + length tl\<rparr>, w'') \<and>
                     work_queue_depth (bro w'') AUDIO_STREAM = 0))"
    using stop q again by (intro exI[of _ ?self'] exI[of _ w']) simp
next
  assume r: "restb = []"
  show "\<exists>v'. AlgorithmB_process_all E selfb v =
                     Some (Inr (length preb),
                           selfb\<lparr>b_processed_count := b_processed_count selfb + length preb\<rparr>, v') \<and>
                   inboxes (bro v') (b_inbox selfb) = []"
    using AlgorithmB_loop_drains[of v selfb preb E 0] assms(3,4,5) r
    by (simp add: AlgorithmB_process_all_def)
next
  fix bad tl e
  assume r: "restb = bad # tl" and e: "AlgorithmB_error E bad = Some e"
  let ?self' = "selfb\<lparr>b_processed_count := b_processed_count selfb + length preb\<rparr>"
  obtain v' where stop: "AlgorithmB_process_all E selfb v = Some (Inl e, ?self', v')"
      and q: "inboxes (bro v') (b_inbox selfb) = tl"
      and s: "subscribers (bro v') FEATURES_B = subscribers (bro v) FEATURES_B"
    using AlgorithmB_loop_stops[of v selfb preb bad tl E e 0] assms(3,4,5) r e
    by (auto simp: AlgorithmB_process_all_def)
  have again: "\<exists>v''. AlgorithmB_process_all E ?self' v' =
                      Some (Inr (length tl),
                            ?self'\<lparr>b_processed_count := b_processed_count ?self' + length tl\<rparr>, v'') \<and>
                     inboxes (bro v'') (b_inbox selfb) = []"
    if "\<forall>m \<in> set tl. AlgorithmB_error E m = None"
    using AlgorithmB_loop_drains[of v' ?self' tl E 0] q s that assms(5)
    by (simp add: AlgorithmB_process_all_def)
  show "\<exists>selfb' v'. AlgorithmB_process_all E selfb v = Some (Inl e, selfb', v') \<and>
               b_inbox selfb' = b_inbox selfb \<and>
               b_processed_count selfb' = b_processed_count selfb + length preb \<and>
               inboxes (bro v') (b_inbox selfb) = tl \<and>
               ((\<forall>m \<in> set tl. AlgorithmB_error E m = None) \<longrightarrow>
                  (\<exists>v''. AlgorithmB_process_all E selfb' v' =
                      Some (Inr (length tl),
                            selfb'\<lparr>b_processed_count := b_processed_count selfb' + length tl\<rparr>, v'') \<and>
                     inboxes (bro v'') (b_inbox selfb) = []))"
    using stop q again by (intro exI[of _ ?self'] exI[of _ v']) simp
qed

theorem process_all_drains_until_failure_witness:
  "(\<exists>self' w'. AlgorithmA_process_all example_env AlgorithmA_init world_bad_second
                  = (Inl ValueError, self', w') \<and>
      a_processed_count self' = 1 \<and>
      queue_items (bro w') AUDIO_STREAM = [audio_2] \<and>
      (\<exists>w''. AlgorithmA_process_all example_env self' w' =
                (Inr 1, self'\<lparr>a_processed_count := a_processed_count self' + 1\<rparr>, w'') \<and>
              work_queue_depth (bro w'') AUDIO_STREAM = 0)) \<and>
   (\<exists>selfb' v'. AlgorithmB_process_all example_env stage_b world_b = Some (Inl TypeError, selfb', v') \<and>
      b_processed_count selfb' = 1 \<and>
      inboxes (bro v') (b_inbox stage_b) = [feature_a_2] \<and>
      (\<exists>v''. AlgorithmB_process_all example_env selfb' v' =
                Some (Inr 1, selfb'\<lparr>b_processed_count := b_processed_count selfb' + 1\<rparr>, v'')))"
proof -
  have ha: "\<forall>m \<in> set [audio_1]. AlgorithmA_error example_env m = None"
    using example_audio_1_ok by simp
  have hb: "\<forall>m \<in> set [feature_a_1]. AlgorithmB_error example_env m = None"
    using example_feature_a_ok(1) by simp
  note t = process_all_drains_until_failure[OF example_world_bad_second ha example_world_b(1) hb example_world_b(2),
      of AlgorithmA_init]
  have ta: "\<forall>bad tl e. [bad_audio, audio_2] = bad # tl \<longrightarrow> AlgorithmA_error example_env bad = Some e \<longrightarrow>
            (\<exists>self' w'. AlgorithmA_process_all example_env AlgorithmA_init world_bad_second = (Inl e, self', w') \<and>
               a_processed_count self' = a_processed_count AlgorithmA_init + length [audio_1] \<and>
               queue_items (bro w') AUDIO_STREAM = tl \<and>
               ((\<forall>m \<in> set tl. AlgorithmA_error example_env m = None) \<longrightarrow>
                  (\<exists>w''. AlgorithmA_process_all example_env self' w' =
                      (Inr (length tl),
                       self'\<lparr>a_processed_count := a_processed_count self' + length tl\<rparr>, w'') \<and>
                     work_queue_depth (bro w'') AUDIO_STREAM = 0)))"
    using t by blast
  have tb: "\<forall>bad tl e. [wrong_type_record, feature_a_2] = bad # tl \<longrightarrow> AlgorithmB_error example_env bad = Some e \<longrightarrow>
            (\<exists>selfb' v'. AlgorithmB_process_all example_env stage_b world_b = Some (Inl e, selfb', v') \<and>
               b_inbox selfb' = b_inbox stage_b \<and>
               b_processed_count selfb' = b_processed_count stage_b + length [feature_a_1] \<and>
               inboxes (bro v') (b_inbox stage_b) = tl \<and>
               ((\<forall>m \<in> set tl. AlgorithmB_error example_env m = None) \<longrightarrow>
                  (\<exists>v''. AlgorithmB_process_all example_env selfb' v' =
                      Some (Inr (length tl),
                            selfb'\<lparr>b_processed_count := b_processed_count selfb' + length tl\<rparr>, v'') \<and>
                     inboxes (bro v'') (b_inbox stage_b) = [])))"
    using t by blast
  have c0: "a_processed_count AlgorithmA_init = 0" "b_processed_count stage_b = 0"
    by (simp_all add: AlgorithmA_init_def stage_b_def AlgorithmB_init_def split_beta)
  have a2: "\<forall>m \<in> set [audio_2]. AlgorithmA_error example_env m = None"
    using example_audio_2_ok by simp
  have b2: "\<forall>m \<in> set [feature_a_2]. AlgorithmB_error example_env m = None"
    using example_feature_a_ok(2) by simp
  obtain self' w' where A: "AlgorithmA_process_all example_env AlgorithmA_init world_bad_second = (Inl ValueError, self', w')"
      "a_processed_count self' = a_processed_count AlgorithmA_init + length [audio_1]"
      "queue_items (bro w') AUDIO_STREAM = [audio_2]"
      "(\<forall>m \<in> set [audio_2]. AlgorithmA_error example_env m = None) \<longrightarrow>
                  (\<exists>w''. AlgorithmA_process_all example_env self' w' =
                      (Inr (length [audio_2]),
                       self'\<lparr>a_processed_count := a_processed_count self' + length [audio_2]\<rparr>, w'') \<and>
                     work_queue_depth (bro w'') AUDIO_STREAM = 0)"
    using ta[rule_format, OF refl example_bad_audio_error] by blast
  obtain selfb' v' where B: "AlgorithmB_process_all example_env stage_b world_b = Some (Inl TypeError, selfb', v')"
      "b_processed_count selfb' = b_processed_count stage_b + length [feature_a_1]"
      "inboxes (bro v') (b_inbox stage_b) = [feature_a_2]"
      "(\<forall>m \<in> set [feature_a_2]. AlgorithmB_error example_env m = None) \<longrightarrow>
                  (\<exists>v''. AlgorithmB_process_all example_env selfb' v' =
                      Some (Inr (length [feature_a_2]),
                            selfb'\<lparr>b_processed_count := b_processed_count selfb' + length [feature_a_2]\<rparr>, v'') \<and>
                     inboxes (bro v'') (b_inbox stage_b) = [])"
    using tb[rule_format, OF refl example_wrong_type_error] by blast
  obtain w'' where A2: "AlgorithmA_process_all example_env self' w' =
                      (Inr (length [audio_2]),
                       self'\<lparr>a_processed_count := a_processed_count self' + length [audio_2]\<rparr>, w'')"
      "work_queue_depth (bro w'') AUDIO_STREAM = 0"
    using A(4) a2 by blast
  obtain v'' where B2: "AlgorithmB_process_all example_env selfb' v' =
                      Some (Inr (length [feature_a_2]),
                            selfb'\<lparr>b_processed_count := b_processed_count selfb' + length [feature_a_2]\<rparr>, v'')"
    using B(4) b2 by blast
  have PA: "\<exists>self' w'. AlgorithmA_process_all example_env AlgorithmA_init world_bad_second
                  = (Inl ValueError, self', w') \<and>
      a_processed_count self' = 1 \<and>
      queue_items (bro w') AUDIO_STREAM = [audio_2] \<and>
      (\<exists>w''. AlgorithmA_process_all example_env self' w' =
                (Inr 1, self'\<lparr>a_processed_count := a_processed_count self' + 1\<rparr>, w'') \<and>
              work_queue_depth (bro w'') AUDIO_STREAM = 0)"
    using A(1,2,3) A2 c0(1) by (intro exI[of _ self'] exI[of _ w']) auto
  have PB: "\<exists>selfb' v'. AlgorithmB_process_all example_env stage_b world_b = Some (Inl TypeError, selfb', v') \<and>
      b_processed_count selfb' = 1 \<and>
      inboxes (bro v') (b_inbox stage_b) = [feature_a_2] \<and>
      (\<exists>v''. AlgorithmB_process_all example_env selfb' v' =
                Some (Inr 1, selfb'\<lparr>b_processed_count := b_processed_count selfb' + 1\<rparr>, v''))"
    using B(1,2,3) B2 c0(2) by (intro exI[of _ selfb'] exI[of _ v']) auto
  show ?thesis
    using PA PB by (rule conjI)
qed

end
